theory Spec2Isabelle
  imports Complex_Main "HOL-Library.AList"
begin

section \<open>The Thrift IDL parser of thriftpy: a shallow embedding\<close>

text \<open>
  The development follows \<^verbatim>\<open>thriftpy/parser/parser.py\<close>. Each grammar action
  \<^verbatim>\<open>p_xxx(p)\<close> is a function from the values of the symbols of its production to
  the value it stores in \<^verbatim>\<open>p[0]\<close>; every helper \<^verbatim>\<open>_xxx\<close> is a function of the
  same name without the leading underscore. Exceptions are values of the type
  \<open>error\<close>. The two module-level globals \<^verbatim>\<open>thrift_stack\<close> and \<^verbatim>\<open>include_dir_\<close> are the
  fields \<open>thrift_stack\<close> and \<open>include_dir'\<close> of a state record that \<open>parse\<close> takes and
  returns. The functions \<open>eval_seq\<close>, \<open>eval_field\<close>, \<open>eval_function\<close> and
  \<open>eval_definition\<close> run the actions of a rule over its parse tree, in the order in which
  the parser reduces.

  The embedding follows the semantics of Python 3: \<^verbatim>\<open>bool\<close> is a subclass of
  \<^verbatim>\<open>int\<close>, the builtin \<^verbatim>\<open>map\<close> returns an iterator that computes nothing until it is
  consumed (in Python 2 it returned a list, and applied the function to every element),
  and a \<^verbatim>\<open>dict\<close> keeps its keys in insertion order. Assertions are enabled. Paths are
  those of a POSIX system.
\<close>

subsection \<open>Python values\<close>

text \<open>
  The values a constant can take: the literals of the lexer (\<^verbatim>\<open>int\<close>, \<^verbatim>\<open>float\<close>,
  \<^verbatim>\<open>str\<close>, \<^verbatim>\<open>bool\<close>), lists, sets, dicts and instances of generated struct classes.
  A float is represented by the number it denotes; only its kind is ever inspected, and its
  value is compared when a list is turned into a set. A set is the list of its elements
  without duplicates, a dict the list of its items in insertion order, with pairwise
  distinct keys. An instance carries the module and the name of its class, and its
  attributes. The two names describe the class; they do not identify the class object:
  two classes of one name in modules of one name are different objects.
\<close>

datatype pyval =
    PNone
  | PBool bool
  | PInt int
  | PFloat real
  | PStr string
  | PList "pyval list"
  | PSet "pyval list"
  | PDict "(pyval \<times> pyval) list"
  | PInst "string \<times> string" "(string \<times> pyval) list"

text \<open>\<^verbatim>\<open>isinstance(v, bool)\<close>, \<^verbatim>\<open>isinstance(v, int)\<close> (true of a \<^verbatim>\<open>bool\<close> as well),
  \<^verbatim>\<open>isinstance(v, float)\<close>, \<^verbatim>\<open>isinstance(v, str)\<close>, and so on.\<close>

fun is_bool :: "pyval \<Rightarrow> bool" where
  "is_bool (PBool b) = True"
| "is_bool v = False"

fun is_int :: "pyval \<Rightarrow> bool" where
  "is_int (PInt i) = True"
| "is_int (PBool b) = True"
| "is_int v = False"

fun is_float :: "pyval \<Rightarrow> bool" where
  "is_float (PFloat f) = True"
| "is_float v = False"

fun is_str :: "pyval \<Rightarrow> bool" where
  "is_str (PStr s) = True"
| "is_str v = False"

fun is_list :: "pyval \<Rightarrow> bool" where
  "is_list (PList xs) = True"
| "is_list v = False"

fun is_set :: "pyval \<Rightarrow> bool" where
  "is_set (PSet xs) = True"
| "is_set v = False"

fun is_dict :: "pyval \<Rightarrow> bool" where
  "is_dict (PDict kvs) = True"
| "is_dict v = False"

text \<open>The integer an \<^verbatim>\<open>int\<close> (or \<^verbatim>\<open>bool\<close>) stands for: \<^verbatim>\<open>True == 1\<close>.\<close>

fun int_value :: "pyval \<Rightarrow> int" where
  "int_value (PInt i) = i"
| "int_value (PBool b) = (if b then 1 else 0)"
| "int_value v = 0"

subsection \<open>Errors\<close>

text \<open>
  The messages of \<^verbatim>\<open>ThriftParserError\<close>, one constructor for each \<^verbatim>\<open>raise\<close> of the
  parser, with the values the message is formatted from (line numbers apart).
\<close>

datatype parser_error =
    TypeErrorForConstant string
  | TypeErrorForField string
  | NoEnumValueOrConstant string
  | NoTypeFound string
  | CantFindService string string
  | NotAService string
  | PathShouldEndWithThrift
  | ModuleSuffix
  | NoNamedValue string int
  | FieldRequired string string
  | NoFieldNamed pyval string

text \<open>
  \<open>Unsupported\<close> is not an exception of Python: it marks the inputs on which this
  embedding does not follow the program (they are listed where it is returned).
\<close>

datatype error =
    AssertionError
  | TypeError
  | IndexError
  | IOError
  | ThriftParserError parser_error
  | Unsupported

subsection \<open>Type tags\<close>

text \<open>
  Modelled from the spec: the class \<^verbatim>\<open>TType\<close> of \<^verbatim>\<open>thriftpy.thrift\<close>, which the parser
  imports, is "an enumerated type-tag namespace with fixed integer codes for the
  primitive/container/struct/enum kinds". Its members are kept symbolic; each is an
  \<^verbatim>\<open>int\<close>.
\<close>

datatype ttype =
    STOP | VOID | BOOL | BYTE | DOUBLE | I16 | I32 | I64 | STRING | BINARY
  | STRUCT | MAP | SET | LIST

text \<open>
  The class built by \<open>make_enum\<close>: its \<^verbatim>\<open>__module__\<close>, its name, the attribute
  \<^verbatim>\<open>_named_values\<close> and the attributes set for the members, in the order they were first
  set. Its \<^verbatim>\<open>_ttype\<close> is always \<^verbatim>\<open>TType.I32\<close>.
\<close>

record enum_cls =
  e_module :: string
  e_name :: string
  named_values :: "int set"
  e_attrs :: "(string \<times> int) list"

datatype base_cls = TPayload | TException

text \<open>
  The type of a field or constant, as the grammar actions build it: the \<^verbatim>\<open>int\<close> of a
  base type (\<open>TBase\<close>), or a tuple whose first component is the tag:
  \<^verbatim>\<open>(TType.LIST, t)\<close>, \<^verbatim>\<open>(TType.SET, t)\<close>, \<^verbatim>\<open>(TType.MAP, (k, v))\<close>,
  \<^verbatim>\<open>(TType.I32, enum_class)\<close> and \<^verbatim>\<open>(_ttype, struct_class)\<close>.

  A struct class has the attributes \<^verbatim>\<open>__module__\<close>, \<^verbatim>\<open>__name__\<close>, \<^verbatim>\<open>_ttype\<close>, its base
  class, \<^verbatim>\<open>thrift_spec\<close> (a dict from field id to a tuple), \<^verbatim>\<open>default_spec\<close> (a list),
  \<^verbatim>\<open>_tspec\<close> (a dict from field name to \<^verbatim>\<open>(required, type)\<close>) and, on the result class
  of a service function, \<^verbatim>\<open>oneway\<close>.
\<close>

datatype ftype =
    TBase ttype
  | TList ftype
  | TSet ftype
  | TMap ftype ftype
  | TEnum enum_cls
  | TStruct struct_cls
and struct_cls =
  StructCls (s_module: string) (s_name: string) (s_ttype: ttype) (s_base: base_cls)
    (thrift_spec: "(int \<times> spec_entry) list")
    (default_spec: "(string \<times> pyval) list")
    (tspec: "(string \<times> bool \<times> ftype) list")
    (oneway: "bool option")
and spec_entry =
    Spec3 ttype string bool
  | Spec4 ttype string tpayload bool
and tpayload =
    PElem ftype
  | PKeyVal ftype ftype
  | PEnumCls enum_cls
  | PStructCls struct_cls

text \<open>\<^verbatim>\<open>ttype[0]\<close> and \<^verbatim>\<open>ttype[1]\<close> of a tuple type.\<close>

fun ttype0 :: "ftype \<Rightarrow> ttype" where
  "ttype0 (TBase c) = c"
| "ttype0 (TList t) = LIST"
| "ttype0 (TSet t) = SET"
| "ttype0 (TMap k v) = MAP"
| "ttype0 (TEnum c) = I32"
| "ttype0 (TStruct c) = s_ttype c"

fun ttype1 :: "ftype \<Rightarrow> tpayload option" where
  "ttype1 (TBase c) = None"
| "ttype1 (TList t) = Some (PElem t)"
| "ttype1 (TSet t) = Some (PElem t)"
| "ttype1 (TMap k v) = Some (PKeyVal k v)"
| "ttype1 (TEnum c) = Some (PEnumCls c)"
| "ttype1 (TStruct c) = Some (PStructCls c)"

subsection \<open>The caster of constants\<close>

definition cast_bool :: "pyval \<Rightarrow> error + pyval" where
  "cast_bool v = (if is_bool v then Inr v else Inl AssertionError)"

definition cast_byte :: "pyval \<Rightarrow> error + pyval" where
  "cast_byte v = (if is_str v then Inr v else Inl AssertionError)"

definition cast_i16 :: "pyval \<Rightarrow> error + pyval" where
  "cast_i16 v = (if is_int v then Inr v else Inl AssertionError)"

definition cast_i32 :: "pyval \<Rightarrow> error + pyval" where
  "cast_i32 v = (if is_int v then Inr v else Inl AssertionError)"

definition cast_i64 :: "pyval \<Rightarrow> error + pyval" where
  "cast_i64 v = (if is_int v then Inr v else Inl AssertionError)"

definition cast_double :: "pyval \<Rightarrow> error + pyval" where
  "cast_double v = (if is_float v then Inr v else Inl AssertionError)"

definition cast_string :: "pyval \<Rightarrow> error + pyval" where
  "cast_string v = (if is_str v then Inr v else Inl AssertionError)"

definition cast_binary :: "pyval \<Rightarrow> error + pyval" where
  "cast_binary v = (if is_str v then Inr v else Inl AssertionError)"

text \<open>
  What the call \<^verbatim>\<open>_cast(t)\<close> itself raises, before the function it returns is applied:
  an \<^verbatim>\<open>int\<close> that is none of the eight base types falls through to \<^verbatim>\<open>t[0]\<close>, which
  raises \<^verbatim>\<open>TypeError\<close>; every tuple gets its caster.
\<close>

fun cast_dispatch :: "ftype \<Rightarrow> error option" where
  "cast_dispatch (TBase c) =
     (if c \<in> {BOOL, BYTE, I16, I32, I64, DOUBLE, STRING, BINARY} then None
      else Some TypeError)"
| "cast_dispatch t = None"

text \<open>
  Hashing and equality of the values that can be members of a set or keys of a dict:
  numbers are equal across \<^verbatim>\<open>bool\<close>, \<^verbatim>\<open>int\<close> and \<^verbatim>\<open>float\<close>; lists, sets and dicts
  are unhashable. Whether an instance of a struct class is hashable is decided by the base
  class \<^verbatim>\<open>TPayload\<close>, which is outside the parser: it is \<open>Unsupported\<close>.
\<close>

fun numeric :: "pyval \<Rightarrow> real option" where
  "numeric (PBool b) = Some (if b then 1 else 0)"
| "numeric (PInt i) = Some (of_int i)"
| "numeric (PFloat f) = Some f"
| "numeric v = None"

definition py_eq :: "pyval \<Rightarrow> pyval \<Rightarrow> bool" where
  "py_eq a b =
     (case numeric a of
        Some x \<Rightarrow> (case numeric b of Some y \<Rightarrow> x = y | None \<Rightarrow> False)
      | None \<Rightarrow> (case numeric b of Some y \<Rightarrow> False | None \<Rightarrow> a = b))"

fun hash_error :: "pyval \<Rightarrow> error option" where
  "hash_error (PList xs) = Some TypeError"
| "hash_error (PSet xs) = Some TypeError"
| "hash_error (PDict kvs) = Some TypeError"
| "hash_error (PInst c fs) = Some Unsupported"
| "hash_error v = None"

text \<open>\<^verbatim>\<open>set(v)\<close> for a list \<^verbatim>\<open>v\<close>: the elements are added one by one; an element
  equal to one already present is dropped.\<close>

fun set_add_all :: "pyval list \<Rightarrow> pyval list \<Rightarrow> error + pyval list" where
  "set_add_all acc [] = Inr acc"
| "set_add_all acc (x # xs) =
     (case hash_error x of
        Some e \<Rightarrow> Inl e
      | None \<Rightarrow> set_add_all (if list_ex (py_eq x) acc then acc else acc @ [x]) xs)"

definition py_set :: "pyval list \<Rightarrow> error + pyval" where
  "py_set xs = (case set_add_all [] xs of Inl e \<Rightarrow> Inl e | Inr ys \<Rightarrow> Inr (PSet ys))"

text \<open>The first key of \<^verbatim>\<open>_tspec\<close> that is required and is not a key of the dict.\<close>

definition missing_required ::
  "(string \<times> bool \<times> ftype) list \<Rightarrow> (pyval \<times> pyval) list \<Rightarrow> string option" where
  "missing_required ts items =
     map_option fst (find (\<lambda>(key, req, t). req \<and> \<not> list_ex (\<lambda>(k, x). k = PStr key) items) ts)"

text \<open>
  Modelled from the spec: the constructor of a struct class is generated by \<^verbatim>\<open>gen_init\<close> of
  \<^verbatim>\<open>thriftpy.thrift\<close>, "a keyword-style constructor driven by the id-indexed spec and the
  default list": every name of \<^verbatim>\<open>default_spec\<close> becomes an attribute, with the keyword
  argument of that name if there is one and the default otherwise.
\<close>

definition kwargs_of :: "(pyval \<times> pyval) list \<Rightarrow> (string \<times> pyval) list" where
  "kwargs_of items =
     List.map_filter (\<lambda>(k, x). case k of PStr s \<Rightarrow> Some (s, x) | _ \<Rightarrow> None) items"

definition construct :: "struct_cls \<Rightarrow> (string \<times> pyval) list \<Rightarrow> pyval" where
  "construct c kwargs =
     PInst (s_module c, s_name c)
       (map (\<lambda>(n, d). (n, case map_of kwargs n of Some x \<Rightarrow> x | None \<Rightarrow> d)) (default_spec c))"

text \<open>
  \<^verbatim>\<open>_cast(t)(v)\<close>. The result is a pair: the value of the object \<^verbatim>\<open>v\<close> after the call
  (the caster of a map and the caster of a struct assign to the items of the dict they are
  given), and the value returned. When the call raises, the parse is abandoned; the
  items already assigned are not tracked.

  \<^item> \<^verbatim>\<open>__cast_list\<close> and \<^verbatim>\<open>__cast_set\<close> evaluate \<^verbatim>\<open>map(_cast(t[1]), v)\<close> and drop the
    iterator: \<^verbatim>\<open>_cast(t[1])\<close> is called, the caster it returns is applied to no element.
  \<^item> \<^verbatim>\<open>__cast_map\<close> runs \<^verbatim>\<open>v[_cast(kt)(key)] = _cast(vt)(v[key])\<close> for every key, the right
    hand side first. The keys of a dict are hashable, and the cast of a hashable value
    returns that value or raises, so the assignment replaces the value of an item.
  \<^item> \<^verbatim>\<open>__cast_struct\<close> first tests \<^verbatim>\<open>isinstance(v, t[1])\<close>, on the class object: it returns
    an instance of that very class unchanged, and fails the assertion that follows for an
    instance of any other class, also one of the same name. The values here do not record
    which class object an instance was made by, so the cast of an instance to a struct
    type is \<open>Unsupported\<close>. Of a dict it checks the required keys, casts and stores every
    value, and calls the class with the dict as keyword arguments. A struct type whose
    \<^verbatim>\<open>_ttype\<close> is not \<^verbatim>\<open>TType.STRUCT\<close> is built by no caller of \<open>make_struct\<close>: it is
    \<open>Unsupported\<close>.
\<close>

function (sequential) cast :: "ftype \<Rightarrow> pyval \<Rightarrow> error + (pyval \<times> pyval)"
and cast_map_items :: "ftype \<Rightarrow> ftype \<Rightarrow> (pyval \<times> pyval) list \<Rightarrow> error + (pyval \<times> pyval) list"
and cast_struct_items :: "struct_cls \<Rightarrow> (pyval \<times> pyval) list \<Rightarrow> error + (pyval \<times> pyval) list"
where
  "cast (TBase c) v =
     map_sum id (\<lambda>r. (v, r))
       (if c = BOOL then cast_bool v
        else if c = BYTE then cast_byte v
        else if c = I16 then cast_i16 v
        else if c = I32 then cast_i32 v
        else if c = I64 then cast_i64 v
        else if c = DOUBLE then cast_double v
        else if c = STRING then cast_string v
        else if c = BINARY then cast_binary v
        else Inl TypeError)"
| "cast (TList t) v =
     (if \<not> is_list v then Inl AssertionError
      else case cast_dispatch t of
        Some e \<Rightarrow> Inl e
      | None \<Rightarrow> Inr (v, v))"
| "cast (TSet t) v =
     (if \<not> (is_list v \<or> is_set v) then Inl AssertionError
      else case cast_dispatch t of
        Some e \<Rightarrow> Inl e
      | None \<Rightarrow>
          (case v of
             PList xs \<Rightarrow> (case py_set xs of Inl e \<Rightarrow> Inl e | Inr s \<Rightarrow> Inr (v, s))
           | _ \<Rightarrow> Inr (v, v)))"
| "cast (TMap kt vt) (PDict items) =
     (case cast_map_items kt vt items of
        Inl e \<Rightarrow> Inl e
      | Inr items' \<Rightarrow> Inr (PDict items', PDict items'))"
| "cast (TMap kt vt) v = Inl AssertionError"
| "cast (TEnum c) v =
     (if \<not> is_int v then Inl AssertionError
      else if int_value v \<in> named_values c then Inr (v, v)
      else Inl (ThriftParserError (NoNamedValue (e_name c) (int_value v))))"
| "cast (TStruct c) (PInst cid attrs) = Inl Unsupported"
| "cast (TStruct c) (PDict items) =
     (if s_ttype c \<noteq> STRUCT then Inl Unsupported
      else case missing_required (tspec c) items of
        Some key \<Rightarrow> Inl (ThriftParserError (FieldRequired key (s_name c)))
      | None \<Rightarrow>
          (case cast_struct_items c items of
             Inl e \<Rightarrow> Inl e
           | Inr items' \<Rightarrow> Inr (PDict items', construct c (kwargs_of items'))))"
| "cast (TStruct c) v =
     (if s_ttype c \<noteq> STRUCT then Inl Unsupported else Inl AssertionError)"
| "cast_map_items kt vt [] = Inr []"
| "cast_map_items kt vt ((key, x) # items) =
     (case cast vt x of
        Inl e \<Rightarrow> Inl e
      | Inr (x', r) \<Rightarrow>
          (case cast kt key of
             Inl e \<Rightarrow> Inl e
           | Inr (key', k) \<Rightarrow>
               (case cast_map_items kt vt items of
                  Inl e \<Rightarrow> Inl e
                | Inr items' \<Rightarrow> Inr ((k, r) # items'))))"
| "cast_struct_items c [] = Inr []"
| "cast_struct_items c ((key, x) # items) =
     (case (case key of PStr s \<Rightarrow> map_of (tspec c) s | _ \<Rightarrow> None) of
        None \<Rightarrow> Inl (ThriftParserError (NoFieldNamed key (s_name c)))
      | Some (req, t) \<Rightarrow>
          (case cast t x of
             Inl e \<Rightarrow> Inl e
           | Inr (x', r) \<Rightarrow>
               (case cast_struct_items c items of
                  Inl e \<Rightarrow> Inl e
                | Inr items' \<Rightarrow> Inr ((key, r) # items'))))"
  by pat_completeness auto

termination
  by (relation "measure (\<lambda>a. case a of
         Inl (t, v) \<Rightarrow> size v
       | Inr (Inl (kt, vt, items)) \<Rightarrow> size_list (size_prod size size) items
       | Inr (Inr (c, items)) \<Rightarrow> size_list (size_prod size size) items)")
    auto

subsection \<open>The builders of classes\<close>

text \<open>
  \<^verbatim>\<open>setattr(cls, key, val)\<close> for every pair of a list: an attribute already set is
  replaced where it is, a new one is added after the others.
\<close>

definition setattrs :: "(string \<times> 'a) list \<Rightarrow> (string \<times> 'a) list \<Rightarrow> (string \<times> 'a) list" where
  "setattrs attrs kvs = foldl (\<lambda>a (key, val). AList.update key val a) attrs kvs"

text \<open>
  The names that can clash with an attribute an object has already: a name that begins
  with two underscores (Python gives every object attributes such as \<^verbatim>\<open>__name__\<close>,
  \<^verbatim>\<open>__module__\<close>, \<^verbatim>\<open>__dict__\<close>), and the two attributes the parser gives a class,
  \<^verbatim>\<open>_ttype\<close> and \<^verbatim>\<open>_named_values\<close>. Where the program sets or reads an attribute of
  such a name, the embedding is \<open>Unsupported\<close>.
\<close>

definition reserved :: "string \<Rightarrow> bool" where
  "reserved name = (take 2 name = ''__'' \<or> name = ''_ttype'' \<or> name = ''_named_values'')"

text \<open>
  The second loop of \<^verbatim>\<open>_make_enum\<close>: \<open>val\<close> is the value of the item before; an item
  without a value takes \<open>val + 1\<close>.
\<close>

fun number_items :: "int \<Rightarrow> (string \<times> int option) list \<Rightarrow> (string \<times> int) list" where
  "number_items val [] = []"
| "number_items val ((key, None) # kvs) = (key, val + 1) # number_items (val + 1) kvs"
| "number_items val ((key, Some x) # kvs) = (key, x) # number_items x kvs"

text \<open>
  \<^verbatim>\<open>_make_enum(name, kvs)\<close>, with the name of the module on top of the stack. An item of
  \<open>kvs\<close> is \<^verbatim>\<open>[name, value]\<close>, \<^verbatim>\<open>[name, None]\<close> or, for the empty alternative of
  \<^verbatim>\<open>enum_item\<close>, \<^verbatim>\<open>None\<close>, which the first loop fails to unpack. \<^verbatim>\<open>_named_values\<close> is
  collected by the first loop, from the values as they are written, before the second loop
  numbers the items that have none. A member with a reserved name is \<open>Unsupported\<close>.
\<close>

definition make_enum ::
  "string \<Rightarrow> string \<Rightarrow> (string \<times> int option) option list \<Rightarrow> error + enum_cls" where
  "make_enum modname name kvs =
     (case those kvs of
        None \<Rightarrow> Inl TypeError
      | Some items \<Rightarrow>
          if list_ex (\<lambda>(key, val). reserved key) items then Inl Unsupported
          else Inr \<lparr> e_module = modname, e_name = name,
                 named_values = set (List.map_filter snd items),
                 e_attrs =
                   (case items of
                      [] \<Rightarrow> []
                    | item # rest \<Rightarrow>
                        setattrs []
                          (number_items (case snd item of None \<Rightarrow> - 1 | Some val \<Rightarrow> val) items)) \<rparr>)"

text \<open>A field, as \<^verbatim>\<open>p_field\<close> builds it: the list
  \<^verbatim>\<open>[id, required, type, name, default]\<close>; no default is \<^verbatim>\<open>None\<close>.\<close>

record field =
  f_id :: int
  f_req :: bool
  f_type :: ftype
  f_name :: string
  f_default :: pyval

text \<open>\<^verbatim>\<open>_ttype_spec(ttype, name, required)\<close>: a triple for an \<^verbatim>\<open>int\<close>, a quadruple for a
  tuple.\<close>

definition ttype_spec :: "ftype \<Rightarrow> string \<Rightarrow> bool \<Rightarrow> spec_entry" where
  "ttype_spec t name required =
     (case ttype1 t of
        None \<Rightarrow> Spec3 (ttype0 t) name required
      | Some payload \<Rightarrow> Spec4 (ttype0 t) name payload required)"

text \<open>
  \<^verbatim>\<open>_make_struct(name, fields, ttype, base_cls)\<close>, with the name of the module on top of
  the stack. The call of \<^verbatim>\<open>gen_init\<close> installs the constructor (see \<open>construct\<close>).
\<close>

definition make_struct ::
  "string \<Rightarrow> string \<Rightarrow> field list \<Rightarrow> ttype \<Rightarrow> base_cls \<Rightarrow> struct_cls" where
  "make_struct modname name field_seq ttype base =
     StructCls modname name ttype base
       (foldl (\<lambda>d f. AList.update (f_id f) (ttype_spec (f_type f) (f_name f) (f_req f)) d) [] field_seq)
       (map (\<lambda>f. (f_name f, f_default f)) field_seq)
       (foldl (\<lambda>d f. AList.update (f_name f) (f_req f, f_type f) d) [] field_seq)
       None"

text \<open>A function of a service, as \<^verbatim>\<open>p_function\<close> builds it: the list
  \<^verbatim>\<open>[oneway, type, name, fields, throws]\<close>.\<close>

record func =
  fn_oneway :: bool
  fn_type :: ftype
  fn_name :: string
  fn_fields :: "field list"
  fn_throws :: "field list"

text \<open>The class of a service: the class it extends, the attributes \<^verbatim>\<open>f_args\<close> and
  \<^verbatim>\<open>f_result\<close> of its functions, and \<^verbatim>\<open>thrift_services\<close>.\<close>

datatype service_cls =
  ServiceCls (sv_module: string) (sv_name: string) (sv_extends: "service_cls option")
    (sv_attrs: "(string \<times> struct_cls) list") (thrift_services: "string list")

text \<open>The two classes the body of the loop of \<^verbatim>\<open>_make_service\<close> builds for a function.\<close>

definition args_cls :: "string \<Rightarrow> func \<Rightarrow> struct_cls" where
  "args_cls modname f = make_struct modname (fn_name f @ ''_args'') (fn_fields f) STRUCT TPayload"

definition result_cls :: "string \<Rightarrow> func \<Rightarrow> struct_cls" where
  "result_cls modname f =
     (case make_struct modname (fn_name f @ ''_result'') (fn_throws f) STRUCT TPayload of
        StructCls m n t b spec defaults ts ow \<Rightarrow>
          StructCls m n t b
            (AList.update 0 (ttype_spec (fn_type f) ''success'' False) spec)
            ((''success'', PNone) # defaults)
            ts
            (Some (fn_oneway f)))"

definition make_service ::
  "string \<Rightarrow> string \<Rightarrow> func list \<Rightarrow> service_cls option \<Rightarrow> service_cls" where
  "make_service modname name funcs extends =
     ServiceCls modname name extends
       (foldl (\<lambda>attrs f.
            AList.update (fn_name f @ ''_result'') (result_cls modname f)
              (AList.update (fn_name f @ ''_args'') (args_cls modname f) attrs))
          [] funcs)
       (map fn_name funcs)"

subsection \<open>Modules and the resolution of names\<close>

text \<open>
  What a name of a module can be bound to: a constant, a type (\<^verbatim>\<open>typedef\<close>), an enum
  class, a struct class, a service class, or an included module. A module is its
  \<^verbatim>\<open>__name__\<close> and the attributes the parser has set, in the order they were first set.
\<close>

datatype entity =
    EConst pyval
  | EType ftype
  | EEnum enum_cls
  | EStruct struct_cls
  | EService service_cls
  | EModule module
and module = Module (m_name: string) (m_attrs: "(string \<times> entity) list")

text \<open>An attribute of a service class: its own, or one of the class it extends.\<close>

fun service_getattr :: "service_cls \<Rightarrow> string \<Rightarrow> entity option" where
  "service_getattr (ServiceCls m n extends attrs services) name =
     (if name = ''thrift_services'' then Some (EConst (PList (map PStr services)))
      else case map_of attrs name of
        Some c \<Rightarrow> Some (EStruct c)
      | None \<Rightarrow> (case extends of None \<Rightarrow> None | Some parent \<Rightarrow> service_getattr parent name))"

text \<open>
  \<^verbatim>\<open>getattr(obj, name, None)\<close> and \<^verbatim>\<open>hasattr(obj, name)\<close>. The result is \<open>Inr None\<close> when
  the object has no such attribute. A module has the attributes the parser has set, an
  enum class its members, a service class \<^verbatim>\<open>thrift_services\<close> and the classes of its
  functions. The other attributes of these objects have reserved names, but for the
  method \<^verbatim>\<open>mro\<close> of a class: such names are \<open>Unsupported\<close>, and so is every attribute
  of a constant, of a type and of a struct class (whose base class is outside the
  parser).
\<close>

definition getattr_ent :: "entity \<Rightarrow> string \<Rightarrow> error + entity option" where
  "getattr_ent obj name =
     (if reserved name then Inl Unsupported
      else case obj of
        EModule m \<Rightarrow> Inr (map_of (m_attrs m) name)
      | EEnum c \<Rightarrow>
          if name = ''mro'' then Inl Unsupported
          else Inr (map_option (\<lambda>val. EConst (PInt val)) (map_of (e_attrs c) name))
      | EService c \<Rightarrow>
          if name = ''mro'' then Inl Unsupported else Inr (service_getattr c name)
      | _ \<Rightarrow> Inl Unsupported)"

text \<open>\<^verbatim>\<open>setattr(thrift, name, value)\<close> on a module. A reserved name could replace
  \<^verbatim>\<open>__name__\<close>, or make the module pass for a type: \<open>Unsupported\<close>.\<close>

definition module_setattr :: "module \<Rightarrow> string \<Rightarrow> entity \<Rightarrow> error + module" where
  "module_setattr thrift name val =
     (if reserved name then Inl Unsupported
      else Inr (Module (m_name thrift) (AList.update name val (m_attrs thrift))))"

text \<open>\<^verbatim>\<open>s.split('.')\<close>.\<close>

fun split_dot :: "string \<Rightarrow> string list" where
  "split_dot [] = [[]]"
| "split_dot (c # cs) =
     (if c = CHR ''.'' then [] # split_dot cs
      else case split_dot cs of
        [] \<Rightarrow> [[c]]
      | key # keys \<Rightarrow> (c # key) # keys)"

text \<open>
  \<^verbatim>\<open>p_const_ref\<close>, with the module on top of the stack: a path of one key is an attribute
  of the module, a path of two keys an attribute of an attribute of the module; every
  other path raises.
\<close>

definition p_const_ref :: "module \<Rightarrow> string \<Rightarrow> error + entity" where
  "p_const_ref thrift ident =
     (let keys = split_dot ident;
          not_found = Inl (ThriftParserError (NoEnumValueOrConstant ident))
      in if length keys = 1 then
           (case getattr_ent (EModule thrift) (keys ! 0) of
              Inl e \<Rightarrow> Inl e
            | Inr None \<Rightarrow> not_found
            | Inr (Some val) \<Rightarrow> Inr val)
         else if length keys = 2 then
           (case getattr_ent (EModule thrift) (keys ! 0) of
              Inl e \<Rightarrow> Inl e
            | Inr None \<Rightarrow> not_found
            | Inr (Some enum) \<Rightarrow>
                (case getattr_ent enum (keys ! 1) of
                   Inl e \<Rightarrow> Inl e
                 | Inr None \<Rightarrow> not_found
                 | Inr (Some val) \<Rightarrow> Inr val))
         else not_found)"

text \<open>The loop of \<^verbatim>\<open>p_ref_type\<close> and of \<^verbatim>\<open>p_service\<close>: one \<^verbatim>\<open>getattr\<close> for every
  name of the path; \<open>Inr None\<close> when a name is missing.\<close>

fun walk :: "entity \<Rightarrow> string list \<Rightarrow> error + entity option" where
  "walk father [] = Inr (Some father)"
| "walk father (name # names) =
     (case getattr_ent father name of
        Inl e \<Rightarrow> Inl e
      | Inr None \<Rightarrow> Inr None
      | Inr (Some child) \<Rightarrow> walk child names)"

text \<open>
  \<^verbatim>\<open>p_ref_type\<close>: an entity with the attribute \<^verbatim>\<open>_ttype\<close> (an enum class, a struct class)
  gives the tuple \<^verbatim>\<open>(_ttype, child)\<close>, a type defined by \<^verbatim>\<open>typedef\<close> is returned as it
  is. The program returns every other entity as it is, too, where a type is expected:
  \<open>Unsupported\<close>.
\<close>

definition p_ref_type :: "module \<Rightarrow> string \<Rightarrow> error + ftype" where
  "p_ref_type thrift ident =
     (case walk (EModule thrift) (split_dot ident) of
        Inl e \<Rightarrow> Inl e
      | Inr None \<Rightarrow> Inl (ThriftParserError (NoTypeFound ident))
      | Inr (Some child) \<Rightarrow>
          (case child of
             EEnum c \<Rightarrow> Inr (TEnum c)
           | EStruct c \<Rightarrow> Inr (TStruct c)
           | EType t \<Rightarrow> Inr t
           | _ \<Rightarrow> Inl Unsupported))"

subsection \<open>The grammar actions\<close>

text \<open>
  The parse tree of a file, one constructor for every alternative of a production. The
  tokens that carry no value (punctuation, most keywords) are left out; a token whose
  value an action reads is kept with its value.
\<close>

text \<open>\<^verbatim>\<open>_parse_seq(p)\<close>, on the values of the right-hand side of a sequence rule:
  item, separator and rest (\<^verbatim>\<open>len(p) == 4\<close>), item and rest, or nothing.\<close>

datatype 'a seq_rhs = Item_sep_seq 'a "'a list" | Item_seq 'a "'a list" | Empty_seq

fun parse_seq :: "'a seq_rhs \<Rightarrow> 'a list" where
  "parse_seq (Item_sep_seq x xs) = [x] @ xs"
| "parse_seq (Item_seq x xs) = [x] @ xs"
| "parse_seq Empty_seq = []"

text \<open>A sequence of items in the parse tree, and its value: the items are reduced from
  left to right, then the sequence from its end.\<close>

datatype 'a seq_cst = Seq_sep 'a "'a seq_cst" | Seq_nosep 'a "'a seq_cst" | Seq_empty

fun eval_seq :: "('a \<Rightarrow> error + 'b) \<Rightarrow> 'a seq_cst \<Rightarrow> error + 'b list" where
  "eval_seq f Seq_empty = Inr (parse_seq Empty_seq)"
| "eval_seq f (Seq_sep item rest) =
     (case f item of
        Inl e \<Rightarrow> Inl e
      | Inr x \<Rightarrow> (case eval_seq f rest of Inl e \<Rightarrow> Inl e | Inr xs \<Rightarrow> Inr (parse_seq (Item_sep_seq x xs))))"
| "eval_seq f (Seq_nosep item rest) =
     (case f item of
        Inl e \<Rightarrow> Inl e
      | Inr x \<Rightarrow> (case eval_seq f rest of Inl e \<Rightarrow> Inl e | Inr xs \<Rightarrow> Inr (parse_seq (Item_seq x xs))))"

text \<open>\<^verbatim>\<open>p_base_type\<close>, on the text of the token: at most one of the eight tests of the
  action holds.\<close>

definition p_base_type :: "string \<Rightarrow> ttype option" where
  "p_base_type tok =
     (if tok = ''bool'' then Some BOOL
      else if tok = ''byte'' then Some BYTE
      else if tok = ''i16'' then Some I16
      else if tok = ''i32'' then Some I32
      else if tok = ''i64'' then Some I64
      else if tok = ''double'' then Some DOUBLE
      else if tok = ''string'' then Some STRING
      else if tok = ''binary'' then Some BINARY
      else None)"

datatype field_type_cst =
    Ref_type string
  | Definition_type definition_type_cst
and definition_type_cst =
    Base_type string
  | Map_type field_type_cst field_type_cst
  | List_type field_type_cst
  | Set_type field_type_cst

text \<open>\<^verbatim>\<open>field_type\<close>, \<^verbatim>\<open>definition_type\<close> and the rules below them. The lexer gives
  \<^verbatim>\<open>base_type\<close> one of the eight keywords; any other text is \<open>Unsupported\<close>.\<close>

fun field_type :: "module \<Rightarrow> field_type_cst \<Rightarrow> error + ftype"
and definition_type :: "module \<Rightarrow> definition_type_cst \<Rightarrow> error + ftype"
where
  "field_type thrift (Ref_type ident) = p_ref_type thrift ident"
| "field_type thrift (Definition_type t) = definition_type thrift t"
| "definition_type thrift (Base_type tok) =
     (case p_base_type tok of None \<Rightarrow> Inl Unsupported | Some c \<Rightarrow> Inr (TBase c))"
| "definition_type thrift (Map_type k v) =
     (case field_type thrift k of
        Inl e \<Rightarrow> Inl e
      | Inr kt \<Rightarrow> (case field_type thrift v of Inl e \<Rightarrow> Inl e | Inr vt \<Rightarrow> Inr (TMap kt vt)))"
| "definition_type thrift (List_type t) = map_sum id TList (field_type thrift t)"
| "definition_type thrift (Set_type t) = map_sum id TSet (field_type thrift t)"

datatype const_value_cst =
    INTCONSTANT int
  | DUBCONSTANT real
  | LITERAL string
  | BOOLCONSTANT bool
  | Const_list const_list_seq_cst
  | Const_map const_map_seq_cst
  | Const_ref string
and const_list_seq_cst =
    List_sep const_value_cst const_list_seq_cst
  | List_nosep const_value_cst const_list_seq_cst
  | List_empty
and const_map_seq_cst =
    Map_sep const_value_cst const_value_cst const_map_seq_cst
  | Map_nosep const_value_cst const_value_cst const_map_seq_cst
  | Map_empty

text \<open>\<^verbatim>\<open>d[k] = v\<close> for a hashable key, and \<^verbatim>\<open>dict(items)\<close>.\<close>

fun dict_setitem :: "(pyval \<times> pyval) list \<Rightarrow> pyval \<Rightarrow> pyval \<Rightarrow> (pyval \<times> pyval) list" where
  "dict_setitem [] k v = [(k, v)]"
| "dict_setitem ((k', v') # d) k v =
     (if py_eq k' k then (k', v) # d else (k', v') # dict_setitem d k v)"

fun py_dict :: "(pyval \<times> pyval) list \<Rightarrow> (pyval \<times> pyval) list \<Rightarrow> error + pyval" where
  "py_dict d [] = Inr (PDict d)"
| "py_dict d ((k, v) # items) =
     (case hash_error k of Some e \<Rightarrow> Inl e | None \<Rightarrow> py_dict (dict_setitem d k v) items)"

text \<open>The value of a constant reference, where a value is expected. A class, a module or
  a type used as a value is \<open>Unsupported\<close>.\<close>

definition entity_value :: "entity \<Rightarrow> error + pyval" where
  "entity_value x = (case x of EConst v \<Rightarrow> Inr v | _ \<Rightarrow> Inl Unsupported)"

fun const_value :: "module \<Rightarrow> const_value_cst \<Rightarrow> error + pyval"
and const_list_seq :: "module \<Rightarrow> const_list_seq_cst \<Rightarrow> error + pyval list"
and const_map_seq :: "module \<Rightarrow> const_map_seq_cst \<Rightarrow> error + (pyval \<times> pyval) list"
where
  "const_value thrift (INTCONSTANT i) = Inr (PInt i)"
| "const_value thrift (DUBCONSTANT d) = Inr (PFloat d)"
| "const_value thrift (LITERAL s) = Inr (PStr s)"
| "const_value thrift (BOOLCONSTANT b) = Inr (PBool b)"
| "const_value thrift (Const_list xs) = map_sum id PList (const_list_seq thrift xs)"
| "const_value thrift (Const_map kvs) =
     (case const_map_seq thrift kvs of Inl e \<Rightarrow> Inl e | Inr items \<Rightarrow> py_dict [] items)"
| "const_value thrift (Const_ref ident) =
     (case p_const_ref thrift ident of Inl e \<Rightarrow> Inl e | Inr x \<Rightarrow> entity_value x)"
| "const_list_seq thrift List_empty = Inr (parse_seq Empty_seq)"
| "const_list_seq thrift (List_sep item rest) =
     (case const_value thrift item of
        Inl e \<Rightarrow> Inl e
      | Inr x \<Rightarrow>
          (case const_list_seq thrift rest of
             Inl e \<Rightarrow> Inl e
           | Inr xs \<Rightarrow> Inr (parse_seq (Item_sep_seq x xs))))"
| "const_list_seq thrift (List_nosep item rest) =
     (case const_value thrift item of
        Inl e \<Rightarrow> Inl e
      | Inr x \<Rightarrow>
          (case const_list_seq thrift rest of
             Inl e \<Rightarrow> Inl e
           | Inr xs \<Rightarrow> Inr (parse_seq (Item_seq x xs))))"
| "const_map_seq thrift Map_empty = Inr (parse_seq Empty_seq)"
| "const_map_seq thrift (Map_sep k v rest) =
     (case const_value thrift k of
        Inl e \<Rightarrow> Inl e
      | Inr x \<Rightarrow>
          (case const_value thrift v of
             Inl e \<Rightarrow> Inl e
           | Inr y \<Rightarrow>
               (case const_map_seq thrift rest of
                  Inl e \<Rightarrow> Inl e
                | Inr items \<Rightarrow> Inr (parse_seq (Item_sep_seq (x, y) items)))))"
| "const_map_seq thrift (Map_nosep k v rest) =
     (case const_value thrift k of
        Inl e \<Rightarrow> Inl e
      | Inr x \<Rightarrow>
          (case const_value thrift v of
             Inl e \<Rightarrow> Inl e
           | Inr y \<Rightarrow>
               (case const_map_seq thrift rest of
                  Inl e \<Rightarrow> Inl e
                | Inr items \<Rightarrow> Inr (parse_seq (Item_seq (x, y) items)))))"

text \<open>
  Values are trees here, objects in Python: a constant reference yields the very object
  bound to the name. When the literal contains a reference and the caster assigns new
  values to items of the dicts of the literal, a dict of an earlier constant may have been
  changed: \<open>Unsupported\<close>.
\<close>

fun has_ref :: "const_value_cst \<Rightarrow> bool"
and has_ref_list :: "const_list_seq_cst \<Rightarrow> bool"
and has_ref_map :: "const_map_seq_cst \<Rightarrow> bool"
where
  "has_ref (Const_ref ident) = True"
| "has_ref (Const_list xs) = has_ref_list xs"
| "has_ref (Const_map kvs) = has_ref_map kvs"
| "has_ref v = False"
| "has_ref_list List_empty = False"
| "has_ref_list (List_sep item rest) = (has_ref item \<or> has_ref_list rest)"
| "has_ref_list (List_nosep item rest) = (has_ref item \<or> has_ref_list rest)"
| "has_ref_map Map_empty = False"
| "has_ref_map (Map_sep k v rest) = (has_ref k \<or> has_ref v \<or> has_ref_map rest)"
| "has_ref_map (Map_nosep k v rest) = (has_ref k \<or> has_ref v \<or> has_ref_map rest)"

definition shared_update :: "const_value_cst \<Rightarrow> ftype \<Rightarrow> pyval \<Rightarrow> bool" where
  "shared_update cst t v =
     (has_ref cst \<and> (case cast t v of Inl e \<Rightarrow> False | Inr (v', val) \<Rightarrow> v' \<noteq> v))"

text \<open>\<^verbatim>\<open>p_const\<close>: the constant is cast and bound in the module; an \<^verbatim>\<open>AssertionError\<close> of
  the caster becomes a \<^verbatim>\<open>ThriftParserError\<close>.\<close>

definition p_const :: "module \<Rightarrow> ftype \<Rightarrow> string \<Rightarrow> pyval \<Rightarrow> error + module" where
  "p_const thrift t name v =
     (case cast t v of
        Inl AssertionError \<Rightarrow> Inl (ThriftParserError (TypeErrorForConstant name))
      | Inl e \<Rightarrow> Inl e
      | Inr (v', val) \<Rightarrow> module_setattr thrift name (EConst val))"

definition p_typedef :: "module \<Rightarrow> ftype \<Rightarrow> string \<Rightarrow> error + module" where
  "p_typedef thrift t name = module_setattr thrift name (EType t)"

datatype enum_item_cst = Enum_item_value string int | Enum_item string | Enum_item_empty

fun p_enum_item :: "enum_item_cst \<Rightarrow> (string \<times> int option) option" where
  "p_enum_item (Enum_item_value name val) = Some (name, Some val)"
| "p_enum_item (Enum_item name) = Some (name, None)"
| "p_enum_item Enum_item_empty = None"

definition p_enum :: "module \<Rightarrow> string \<Rightarrow> (string \<times> int option) option list \<Rightarrow> error + module" where
  "p_enum thrift name kvs =
     (case make_enum (m_name thrift) name kvs of
        Inl e \<Rightarrow> Inl e
      | Inr cls \<Rightarrow> module_setattr thrift name (EEnum cls))"

text \<open>\<^verbatim>\<open>p_field_req\<close>: the production is the token \<^verbatim>\<open>REQUIRED\<close>, the token \<^verbatim>\<open>OPTIONAL\<close>
  (\<^verbatim>\<open>len(p) == 2\<close>, with the text of the token in \<^verbatim>\<open>p[1]\<close>), or empty.\<close>

datatype field_req_cst = Field_req_token string | Field_req_empty

fun p_field_req :: "field_req_cst \<Rightarrow> bool" where
  "p_field_req (Field_req_token tok) = (tok = ''required'')"
| "p_field_req Field_req_empty = False"

text \<open>\<^verbatim>\<open>p_field\<close>, on the values of \<^verbatim>\<open>field_id\<close>, \<^verbatim>\<open>field_req\<close>, \<^verbatim>\<open>field_type\<close>, the
  identifier and, when \<^verbatim>\<open>len(p) == 7\<close>, the constant.\<close>

definition p_field :: "int \<Rightarrow> bool \<Rightarrow> ftype \<Rightarrow> string \<Rightarrow> pyval option \<Rightarrow> error + field" where
  "p_field fid req t name const =
     (case const of
        None \<Rightarrow> Inr \<lparr> f_id = fid, f_req = req, f_type = t, f_name = name, f_default = PNone \<rparr>
      | Some v \<Rightarrow>
          (case cast t v of
             Inl AssertionError \<Rightarrow> Inl (ThriftParserError (TypeErrorForField name))
           | Inl e \<Rightarrow> Inl e
           | Inr (v', val) \<Rightarrow>
               Inr \<lparr> f_id = fid, f_req = req, f_type = t, f_name = name, f_default = val \<rparr>))"

datatype field_cst = Field int field_req_cst field_type_cst string "const_value_cst option"

fun eval_field :: "module \<Rightarrow> field_cst \<Rightarrow> error + field" where
  "eval_field thrift (Field fid req ft name const) =
     (case field_type thrift ft of
        Inl e \<Rightarrow> Inl e
      | Inr t \<Rightarrow>
          (case const of
             None \<Rightarrow> p_field fid (p_field_req req) t name None
           | Some cst \<Rightarrow>
               (case const_value thrift cst of
                  Inl e \<Rightarrow> Inl e
                | Inr v \<Rightarrow>
                    if shared_update cst t v then Inl Unsupported
                    else p_field fid (p_field_req req) t name (Some v))))"

definition p_struct :: "module \<Rightarrow> string \<Rightarrow> field list \<Rightarrow> error + module" where
  "p_struct thrift name field_seq =
     module_setattr thrift name (EStruct (make_struct (m_name thrift) name field_seq STRUCT TPayload))"

definition p_union :: "module \<Rightarrow> string \<Rightarrow> field list \<Rightarrow> error + module" where
  "p_union thrift name field_seq =
     module_setattr thrift name (EStruct (make_struct (m_name thrift) name field_seq STRUCT TPayload))"

definition p_exception :: "module \<Rightarrow> string \<Rightarrow> field list \<Rightarrow> error + module" where
  "p_exception thrift name field_seq =
     module_setattr thrift name (EStruct (make_struct (m_name thrift) name field_seq STRUCT TException))"

text \<open>\<^verbatim>\<open>p_function_type\<close> and \<^verbatim>\<open>p_function\<close>; \<open>oneway_tok\<close> is the text of the token
  \<^verbatim>\<open>ONEWAY\<close> when the production begins with it, \<open>throws\<close> the value of \<^verbatim>\<open>throws\<close> when
  the production ends with it.\<close>

datatype function_type_cst = Void | Function_field_type field_type_cst

fun function_type :: "module \<Rightarrow> function_type_cst \<Rightarrow> error + ftype" where
  "function_type thrift Void = Inr (TBase VOID)"
| "function_type thrift (Function_field_type ft) = field_type thrift ft"

definition p_function ::
  "string option \<Rightarrow> ftype \<Rightarrow> string \<Rightarrow> field list \<Rightarrow> field list option \<Rightarrow> func" where
  "p_function oneway_tok t name field_seq throws =
     \<lparr> fn_oneway = (oneway_tok = Some ''oneway''), fn_type = t, fn_name = name,
       fn_fields = field_seq,
       fn_throws = (case throws of None \<Rightarrow> [] | Some ts \<Rightarrow> ts) \<rparr>"

datatype function_cst =
  Function "string option" function_type_cst string "field_cst seq_cst" "field_cst seq_cst option"

fun eval_function :: "module \<Rightarrow> function_cst \<Rightarrow> error + func" where
  "eval_function thrift (Function oneway_tok ft name field_seq throws) =
     (case function_type thrift ft of
        Inl e \<Rightarrow> Inl e
      | Inr t \<Rightarrow>
          (case eval_seq (eval_field thrift) field_seq of
             Inl e \<Rightarrow> Inl e
           | Inr fs \<Rightarrow>
               (case throws of
                  None \<Rightarrow> Inr (p_function oneway_tok t name fs None)
                | Some ts_cst \<Rightarrow>
                    (case eval_seq (eval_field thrift) ts_cst of
                       Inl e \<Rightarrow> Inl e
                     | Inr ts \<Rightarrow> Inr (p_function oneway_tok t name fs (Some ts))))))"

text \<open>\<^verbatim>\<open>p_service\<close>: the service to extend is looked up along its path, and must have the
  attribute \<^verbatim>\<open>thrift_services\<close>. An entity that has it and is not a service class is
  \<open>Unsupported\<close>.\<close>

definition p_service ::
  "module \<Rightarrow> string \<Rightarrow> string option \<Rightarrow> func list \<Rightarrow> error + module" where
  "p_service thrift name extends_ident function_seq =
     (case extends_ident of
        None \<Rightarrow>
          module_setattr thrift name
            (EService (make_service (m_name thrift) name function_seq None))
      | Some ident \<Rightarrow>
          (case walk (EModule thrift) (split_dot ident) of
             Inl e \<Rightarrow> Inl e
           | Inr None \<Rightarrow> Inl (ThriftParserError (CantFindService ident name))
           | Inr (Some child) \<Rightarrow>
               (case getattr_ent child ''thrift_services'' of
                  Inl e \<Rightarrow> Inl e
                | Inr None \<Rightarrow> Inl (ThriftParserError (NotAService ident))
                | Inr (Some services) \<Rightarrow>
                    (case child of
                       EService extends \<Rightarrow>
                         module_setattr thrift name
                           (EService (make_service (m_name thrift) name function_seq (Some extends)))
                     | _ \<Rightarrow> Inl Unsupported))))"

datatype definition_cst =
    Const field_type_cst string const_value_cst
  | Typedef definition_type_cst string
  | Enum string "enum_item_cst seq_cst"
  | Struct string "field_cst seq_cst"
  | Union string "field_cst seq_cst"
  | Exception string "field_cst seq_cst"
  | Service string "string option" "function_cst seq_cst"

text \<open>One \<^verbatim>\<open>definition_unit\<close>: the actions below it run from left to right, then its own,
  on the module on top of the stack.\<close>

fun definition_unit :: "module \<Rightarrow> definition_cst \<Rightarrow> error + module" where
  "definition_unit thrift (Const ft name cst) =
     (case field_type thrift ft of
        Inl e \<Rightarrow> Inl e
      | Inr t \<Rightarrow>
          (case const_value thrift cst of
             Inl e \<Rightarrow> Inl e
           | Inr v \<Rightarrow>
               if shared_update cst t v then Inl Unsupported else p_const thrift t name v))"
| "definition_unit thrift (Typedef dt name) =
     (case definition_type thrift dt of Inl e \<Rightarrow> Inl e | Inr t \<Rightarrow> p_typedef thrift t name)"
| "definition_unit thrift (Enum name enum_seq) =
     (case eval_seq (\<lambda>item. Inr (p_enum_item item)) enum_seq of
        Inl e \<Rightarrow> Inl e
      | Inr kvs \<Rightarrow> p_enum thrift name kvs)"
| "definition_unit thrift (Struct name field_seq) =
     (case eval_seq (eval_field thrift) field_seq of Inl e \<Rightarrow> Inl e | Inr fs \<Rightarrow> p_struct thrift name fs)"
| "definition_unit thrift (Union name field_seq) =
     (case eval_seq (eval_field thrift) field_seq of Inl e \<Rightarrow> Inl e | Inr fs \<Rightarrow> p_union thrift name fs)"
| "definition_unit thrift (Exception name field_seq) =
     (case eval_seq (eval_field thrift) field_seq of
        Inl e \<Rightarrow> Inl e
      | Inr fs \<Rightarrow> p_exception thrift name fs)"
| "definition_unit thrift (Service name extends_ident function_seq) =
     (case eval_seq (eval_function thrift) function_seq of
        Inl e \<Rightarrow> Inl e
      | Inr fs \<Rightarrow> p_service thrift name extends_ident fs)"

text \<open>The definitions of a file, in order. The result is the error raised, if any, and
  the module as it is then.\<close>

fun eval_definition :: "module \<Rightarrow> definition_cst list \<Rightarrow> error option \<times> module" where
  "eval_definition thrift [] = (None, thrift)"
| "eval_definition thrift (d # ds) =
     (case definition_unit thrift d of
        Inl e \<Rightarrow> (Some e, thrift)
      | Inr thrift' \<Rightarrow> eval_definition thrift' ds)"

subsection \<open>The entry point\<close>

text \<open>The two globals of the parser. The stack grows at its end: \<^verbatim>\<open>thrift_stack[-1]\<close> is
  the last element. Initially the stack is empty and \<^verbatim>\<open>include_dir_\<close> is \<^verbatim>\<open>'.'\<close>.\<close>

record pstate =
  thrift_stack :: "module list"
  include_dir' :: string

definition initial_state :: pstate where
  "initial_state = \<lparr> thrift_stack = [], include_dir' = ''.'' \<rparr>"

datatype header_cst = Include string | Namespace string string

datatype thrift_file =
  Thrift_file (headers: "header_cst list") (definitions: "definition_cst list")

text \<open>\<^verbatim>\<open>s.endswith(suffix)\<close>, and \<^verbatim>\<open>os.path.join(a, b)\<close> and \<^verbatim>\<open>os.path.basename(p)\<close> of
  \<^verbatim>\<open>posixpath\<close>.\<close>

definition endswith :: "string \<Rightarrow> string \<Rightarrow> bool" where
  "endswith s suffix = (drop (length s - length suffix) s = suffix)"

definition os_path_join :: "string \<Rightarrow> string \<Rightarrow> string" where
  "os_path_join a b =
     (if take 1 b = ''/'' then b
      else if a = [] \<or> endswith a ''/'' then a @ b
      else a @ ''/'' @ b)"

definition os_path_basename :: "string \<Rightarrow> string" where
  "os_path_basename p = rev (takeWhile (\<lambda>c. c \<noteq> CHR ''/'') (rev p))"

text \<open>
  \<^verbatim>\<open>parse(path, module_name, include_dir)\<close>, and the headers of a file with the action
  \<^verbatim>\<open>p_include\<close>, which calls \<^verbatim>\<open>parse\<close> again.

  \<^item> \<open>files\<close> is the file system: it maps the path of a readable file to the parse tree of
    its text. A path it does not map cannot be opened. Files that the lexer or the
    grammar reject are not represented.
  \<^item> The first argument bounds the depth of the calls of \<open>parse\<close> inside each other;
    the result is \<open>None\<close> when the bound is reached. A chain of files that include each
    other without end reaches every bound.
  \<^item> The result is the module returned or the exception raised, and the state of the
    globals then. An exception leaves the stack as it is: nothing pops the modules of the
    calls it unwinds.
\<close>

fun parse ::
  "nat \<Rightarrow> (string \<Rightarrow> thrift_file option) \<Rightarrow> pstate \<Rightarrow> string \<Rightarrow> string option \<Rightarrow> string option
     \<Rightarrow> ((error + module) \<times> pstate) option"
and header ::
  "nat \<Rightarrow> (string \<Rightarrow> thrift_file option) \<Rightarrow> pstate \<Rightarrow> header_cst list
     \<Rightarrow> (error option \<times> pstate) option"
where
  "parse 0 files st path module_name include_dir = None"
| "parse (Suc n) files st path module_name include_dir =
     (let st1 = (case include_dir of None \<Rightarrow> st | Some d \<Rightarrow> st\<lparr>include_dir' := d\<rparr>)
      in if \<not> endswith path ''.thrift'' then
           Some (Inl (ThriftParserError PathShouldEndWithThrift), st1)
         else case files path of
           None \<Rightarrow> Some (Inl IOError, st1)
         | Some data \<Rightarrow>
             if module_name \<noteq> None \<and> \<not> endswith (the module_name) ''_thrift'' then
               Some (Inl (ThriftParserError ModuleSuffix), st1)
             else
               let name = (case module_name of
                             None \<Rightarrow> take (length (os_path_basename path) - 7) (os_path_basename path)
                           | Some name \<Rightarrow> name);
                   st2 = st1\<lparr>thrift_stack := thrift_stack st1 @ [Module name []]\<rparr>
               in case header n files st2 (headers data) of
                    None \<Rightarrow> None
                  | Some (Some e, st3) \<Rightarrow> Some (Inl e, st3)
                  | Some (None, st3) \<Rightarrow>
                      if thrift_stack st3 = [] then Some (Inl IndexError, st3)
                      else case eval_definition (last (thrift_stack st3)) (definitions data) of
                        (Some e, thrift) \<Rightarrow>
                          Some (Inl e, st3\<lparr>thrift_stack := butlast (thrift_stack st3) @ [thrift]\<rparr>)
                      | (None, thrift) \<Rightarrow>
                          Some (Inr thrift, st3\<lparr>thrift_stack := butlast (thrift_stack st3)\<rparr>))"
| "header n files st [] = Some (None, st)"
| "header n files st (Namespace scope ident # hs) = header n files st hs"
| "header n files st (Include literal # hs) =
     (if thrift_stack st = [] then Some (Some IndexError, st)
      else case parse n files st (os_path_join (include_dir' st) literal) None None of
        None \<Rightarrow> None
      | Some (Inl e, st') \<Rightarrow> Some (Some e, st')
      | Some (Inr child, st') \<Rightarrow>
          (case module_setattr (last (thrift_stack st)) (m_name child) (EModule child) of
             Inl e \<Rightarrow> Some (Some e, st')
           | Inr thrift \<Rightarrow>
               header n files (st'\<lparr>thrift_stack := butlast (thrift_stack st') @ [thrift]\<rparr>) hs))"

subsection \<open>The numbering rule of the specification\<close>

text \<open>
  The rule as the specification words it: a member with an explicit value takes it; a
  member without one takes 0 if no member precedes it and the value of its predecessor
  plus 1 otherwise. \<open>prev\<close> is the value of the predecessor, if there is one.
\<close>

fun spec_enum_values :: "int option \<Rightarrow> (string \<times> int option) list \<Rightarrow> (string \<times> int) list" where
  "spec_enum_values prev [] = []"
| "spec_enum_values prev ((key, Some x) # kvs) = (key, x) # spec_enum_values (Some x) kvs"
| "spec_enum_values prev ((key, None) # kvs) =
     (case prev of
        None \<Rightarrow> (key, 0) # spec_enum_values (Some 0) kvs
      | Some p \<Rightarrow> (key, p + 1) # spec_enum_values (Some (p + 1)) kvs)"

subsection \<open>Auxiliary notions and examples\<close>

text \<open>
  Types whose caster returns the very value it is given, whatever it does with the
  elements of a list: the base types, the enums, and the lists and maps built from such
  types. The caster of a set returns a new set for a list, the caster of a struct a new
  instance for a dict.
\<close>

fun returns_argument :: "ftype \<Rightarrow> bool" where
  "returns_argument (TBase c) = True"
| "returns_argument (TEnum c) = True"
| "returns_argument (TList t) = returns_argument t"
| "returns_argument (TSet t) = False"
| "returns_argument (TStruct c) = False"
| "returns_argument (TMap kt vt) = (returns_argument kt \<and> returns_argument vt)"

text \<open>
  A client that calls \<^verbatim>\<open>parse\<close> several times, one call after the other, each with its
  path, module name and include directory, and goes on when a call raises: the state of
  the globals after the last call. And the include directory of the last call of such a
  sequence that gave one, \<open>d\<close> if none did. Neither is a function of the parser; they
  serve to state what a call finds after earlier calls.
\<close>

fun calls ::
  "nat \<Rightarrow> (string \<Rightarrow> thrift_file option) \<Rightarrow> pstate
     \<Rightarrow> (string \<times> string option \<times> string option) list \<Rightarrow> pstate option"
where
  "calls n files st [] = Some st"
| "calls n files st ((path, module_name, include_dir) # cs) =
     (case parse n files st path module_name include_dir of
        None \<Rightarrow> None
      | Some (res, st') \<Rightarrow> calls n files st' cs)"

fun latest_include_dir :: "string \<Rightarrow> (string \<times> string option \<times> string option) list \<Rightarrow> string" where
  "latest_include_dir d [] = d"
| "latest_include_dir d ((path, module_name, None) # cs) = latest_include_dir d cs"
| "latest_include_dir d ((path, module_name, Some d') # cs) = latest_include_dir d' cs"

text \<open>An unqualified field, written with the qualifier \<^verbatim>\<open>optional\<close> instead.\<close>

fun as_optional :: "field_cst \<Rightarrow> field_cst" where
  "as_optional (Field fid Field_req_empty ft name const) =
     Field fid (Field_req_token ''optional'') ft name const"
| "as_optional f = f"

text \<open>The class of \<^verbatim>\<open>struct S { 1: i32 a }\<close> in a module \<^verbatim>\<open>m\<close>.\<close>

definition struct_S :: struct_cls where
  "struct_S = make_struct ''m'' ''S''
     [\<lparr> f_id = 1, f_req = False, f_type = TBase I32, f_name = ''a'', f_default = PNone \<rparr>]
     STRUCT TPayload"

text \<open>The parse tree of \<^verbatim>\<open>struct S { 1: i32 a; 2: string b; }\<close>, and a file system with
  the file \<^verbatim>\<open>s.thrift\<close> that holds it.\<close>

definition struct_S_cst :: definition_cst where
  "struct_S_cst = Struct ''S''
     (Seq_sep (Field 1 Field_req_empty (Definition_type (Base_type ''i32'')) ''a'' None)
       (Seq_sep (Field 2 Field_req_empty (Definition_type (Base_type ''string'')) ''b'' None) Seq_empty))"

definition struct_files :: "string \<Rightarrow> thrift_file option" where
  "struct_files = map_of [(''s.thrift'', Thrift_file [] [struct_S_cst])]"

text \<open>
  A module \<^verbatim>\<open>main\<close> that has included \<^verbatim>\<open>child_module.thrift\<close>, which declares
  \<^verbatim>\<open>enum EnumName { MEMBER = 1 }\<close>; and the files: \<^verbatim>\<open>main.thrift\<close> is
  \<^verbatim>\<open>include "child_module.thrift"  const i32 X = child_module.EnumName.MEMBER\<close>.
\<close>

definition child_module :: module where
  "child_module = Module ''child_module''
     [(''EnumName'', EEnum \<lparr> e_module = ''child_module'', e_name = ''EnumName'',
                             named_values = {1}, e_attrs = [(''MEMBER'', 1)] \<rparr>)]"

definition main_module :: module where
  "main_module = Module ''main'' [(''child_module'', EModule child_module)]"

definition include_files :: "string \<Rightarrow> thrift_file option" where
  "include_files = map_of
     [(''./child_module.thrift'',
         Thrift_file [] [Enum ''EnumName'' (Seq_nosep (Enum_item_value ''MEMBER'' 1) Seq_empty)]),
      (''main.thrift'',
         Thrift_file [Include ''child_module.thrift'']
           [Const (Definition_type (Base_type ''i32'')) ''X'' (Const_ref ''child_module.EnumName.MEMBER'')])]"

text \<open>
  Files for the include directory: \<^verbatim>\<open>a.thrift\<close> is empty, \<^verbatim>\<open>b.thrift\<close> is
  \<^verbatim>\<open>include "c.thrift"\<close>, and there are two files \<^verbatim>\<open>c.thrift\<close>: \<^verbatim>\<open>const i32 X = 1\<close>
  in the directory \<^verbatim>\<open>/inc\<close>, \<^verbatim>\<open>const i32 X = 2\<close> in the current directory.
\<close>

definition dir_files :: "string \<Rightarrow> thrift_file option" where
  "dir_files = map_of
     [(''a.thrift'', Thrift_file [] []),
      (''b.thrift'', Thrift_file [Include ''c.thrift''] []),
      (''/inc/c.thrift'', Thrift_file [] [Const (Definition_type (Base_type ''i32'')) ''X'' (INTCONSTANT 1)]),
      (''./c.thrift'', Thrift_file [] [Const (Definition_type (Base_type ''i32'')) ''X'' (INTCONSTANT 2)])]"

section \<open>Properties\<close>

subsection \<open>Lists and sets: the elements are not cast\<close>

lemma cast_list_ignores_elements:
  "cast (TList t) (PList xs) =
     (case cast_dispatch t of Some e \<Rightarrow> Inl e | None \<Rightarrow> Inr (PList xs, PList xs))"
  by simp

text \<open>
  Claim C1 says that the cast of a list or set validates every element against the
  element type and raises when an element does not match. The program evaluates
  \<^verbatim>\<open>map(_cast(t[1]), v)\<close> and drops the iterator, so that no element is cast:
  \<^verbatim>\<open>const list<i32> X = ["oops"]\<close> is accepted and bound, though the cast of
  \<^verbatim>\<open>"oops"\<close> to \<^verbatim>\<open>i32\<close> raises; the same holds for \<^verbatim>\<open>set<i32>\<close>.
\<close>

theorem cast_list_elements_unchecked:
  "cast (TBase I32) (PStr ''oops'') = Inl AssertionError
   \<and> cast (TList (TBase I32)) (PList [PStr ''oops''])
       = Inr (PList [PStr ''oops''], PList [PStr ''oops''])
   \<and> cast (TSet (TBase I32)) (PList [PStr ''oops''])
       = Inr (PList [PStr ''oops''], PSet [PStr ''oops''])
   \<and> eval_definition (Module ''m'' [])
        [Const (Definition_type (List_type (Definition_type (Base_type ''i32'')))) ''X'' (Const_list (List_sep (LITERAL ''oops'') List_empty))]
       = (None, Module ''m'' [(''X'', EConst (PList [PStr ''oops'']))])"
  by (simp add: cast_i32_def py_set_def py_eq_def p_base_type_def shared_update_def p_const_def
      module_setattr_def reserved_def)

subsection \<open>Enumerations\<close>

lemma number_items_spec: "number_items val kvs = spec_enum_values (Some val) kvs"
  by (induction val kvs rule: number_items.induct) simp_all

lemma those_map_Some: "those (map Some xs) = Some xs"
  by (induction xs) simp_all

lemma setattrs_distinct_aux:
  "distinct (map fst (attrs @ kvs)) \<Longrightarrow> setattrs attrs kvs = attrs @ kvs"
proof (induction kvs arbitrary: attrs)
  case Nil
  then show ?case by (simp add: setattrs_def)
next
  case (Cons kv kvs)
  obtain k v where kv: "kv = (k, v)" by (cases kv)
  from Cons.prems kv have notin: "k \<notin> fst ` set attrs" by auto
  have upd: "AList.update k v attrs = attrs @ [(k, v)]"
    using notin by (induction attrs) auto
  have "setattrs attrs (kv # kvs) = setattrs (attrs @ [(k, v)]) kvs"
    by (simp add: setattrs_def kv upd)
  also have "\<dots> = (attrs @ [(k, v)]) @ kvs"
    using Cons.prems kv by (intro Cons.IH) simp
  finally show ?case by (simp add: kv)
qed

lemma setattrs_distinct: "distinct (map fst kvs) \<Longrightarrow> setattrs [] kvs = kvs"
  using setattrs_distinct_aux [of "[]" kvs] by simp

lemma map_fst_spec: "map fst (spec_enum_values prev kvs) = map fst kvs"
  by (induction prev kvs rule: spec_enum_values.induct) (simp_all split: option.split)

text \<open>
  Claim C8. For every enum declaration, the members take the values of the numbering rule:
  the class built by \<open>make_enum\<close> has, for its members, the attributes the rule of the
  specification gives (when two members share a name, the later one sets the attribute;
  when the names are distinct, the attributes are the members with their values, in
  order). So \<^verbatim>\<open>enum E { A, B, C }\<close> gives 0, 1, 2 and \<^verbatim>\<open>enum E { A = 5, B }\<close> gives
  B = 6.
\<close>

theorem make_enum_auto_numbering:
  assumes "\<not> list_ex (\<lambda>(key, val). reserved key) items"
  shows "\<exists>cls. make_enum modname name (map Some items) = Inr cls
           \<and> e_attrs cls = setattrs [] (spec_enum_values None items)
           \<and> (distinct (map fst items) \<longrightarrow> e_attrs cls = spec_enum_values None items)"
proof -
  have attrs: "(case items of [] \<Rightarrow> [] | item # rest \<Rightarrow>
                 setattrs [] (number_items (case snd item of None \<Rightarrow> - 1 | Some val \<Rightarrow> val) items))
               = setattrs [] (spec_enum_values None items)"
  proof (cases items)
    case Nil
    then show ?thesis by (simp add: setattrs_def)
  next
    case (Cons item rest)
    obtain key val where item: "item = (key, val)" by (cases item)
    show ?thesis
      by (cases val) (simp_all add: Cons item number_items_spec)
  qed
  have "distinct (map fst items) \<Longrightarrow> setattrs [] (spec_enum_values None items) = spec_enum_values None items"
    by (rule setattrs_distinct) (simp add: map_fst_spec)
  with assms attrs show ?thesis
    by (simp add: make_enum_def those_map_Some)
qed

theorem make_enum_auto_numbering_witness:
  "(\<exists>cls. make_enum ''m'' ''E'' [Some (''A'', None), Some (''B'', None), Some (''C'', None)] = Inr cls
      \<and> e_attrs cls = [(''A'', 0), (''B'', 1), (''C'', 2)])
   \<and> (\<exists>cls. make_enum ''m'' ''E'' [Some (''A'', Some 5), Some (''B'', None)] = Inr cls
      \<and> e_attrs cls = [(''A'', 5), (''B'', 6)])"
  using make_enum_auto_numbering [of "[(''A'', None), (''B'', None), (''C'', None)]" "''m''" "''E''"]
    make_enum_auto_numbering [of "[(''A'', Some 5), (''B'', None)]" "''m''" "''E''"]
  by (auto simp: reserved_def)

text \<open>\<^verbatim>\<open>_named_values\<close> holds the values that are written in the declaration, and no
  other.\<close>

lemma set_map_filter_snd:
  "set (List.map_filter snd items) = {val. \<exists>key. (key, Some val) \<in> set items}"
  by (induction items) (auto simp: List.map_filter_simps split: option.splits)

lemma named_values_written:
  "make_enum modname name (map Some items) = Inr cls \<Longrightarrow>
     named_values cls = {val. \<exists>key. (key, Some val) \<in> set items}"
  using set_map_filter_snd [of items]
  by (auto simp: make_enum_def those_map_Some split: if_splits)

text \<open>
  Claim C2 says that the set of defined values of an enum holds the value of every member,
  numbered or written, so that the cast of an integer succeeds exactly when it is the
  value of a member. In the program \<^verbatim>\<open>_named_values\<close> is filled before the members are
  numbered: for \<^verbatim>\<open>enum E { A, B }\<close> it is empty, although \<^verbatim>\<open>A\<close> is 0, and
  \<^verbatim>\<open>const E X = E.A\<close> raises "Couldn't find a named value in enum E for value 0".
\<close>

theorem cast_enum_auto_numbered_rejected:
  "make_enum ''m'' ''E'' [Some (''A'', None), Some (''B'', None)]
     = Inr \<lparr> e_module = ''m'', e_name = ''E'', named_values = {}, e_attrs = [(''A'', 0), (''B'', 1)] \<rparr>
   \<and> cast (TEnum \<lparr> e_module = ''m'', e_name = ''E'', named_values = {}, e_attrs = [(''A'', 0), (''B'', 1)] \<rparr>)
        (PInt 0) = Inl (ThriftParserError (NoNamedValue ''E'' 0))
   \<and> fst (eval_definition (Module ''m'' [])
        [Enum ''E'' (Seq_sep (Enum_item ''A'') (Seq_nosep (Enum_item ''B'') Seq_empty)),
         Const (Ref_type ''E'') ''X'' (Const_ref ''E.A'')])
       = Some (ThriftParserError (NoNamedValue ''E'' 0))"
  by (simp add: make_enum_def reserved_def setattrs_def List.map_filter_simps p_enum_def module_setattr_def
        p_ref_type_def getattr_ent_def p_const_ref_def entity_value_def shared_update_def p_const_def)

subsection \<open>The result class of a service function\<close>

lemma result_key_not_args: "a @ ''_result'' \<noteq> b @ ''_args''"
proof
  assume "a @ ''_result'' = b @ ''_args''"
  then have "last (a @ ''_result'') = last (b @ ''_args'')" by simp
  then show False by simp
qed

text \<open>The functions are taken in the order of the declaration, and each one sets the
  attributes of its name: the functions that follow one and have other names leave its
  result class in place.\<close>

lemma service_attrs_later:
  assumes "key \<notin> fn_name ` set post"
  shows "map_of (foldl (\<lambda>attrs f.
                  AList.update (fn_name f @ ''_result'') (result_cls modname f)
                    (AList.update (fn_name f @ ''_args'') (args_cls modname f) attrs)) attrs0 post)
                (key @ ''_result'')
         = map_of attrs0 (key @ ''_result'')"
  using assms
proof (induction post arbitrary: attrs0)
  case Nil
  then show ?case by simp
next
  case (Cons h post)
  from Cons.prems have h: "fn_name h \<noteq> key" and post: "key \<notin> fn_name ` set post" by auto
  show ?case
    using h by (simp add: Cons.IH [OF post] update_conv' result_key_not_args)
qed

lemma map_of_service_attrs:
  assumes "fn_name g \<notin> fn_name ` set post"
  shows "map_of (foldl (\<lambda>attrs f.
                  AList.update (fn_name f @ ''_result'') (result_cls modname f)
                    (AList.update (fn_name f @ ''_args'') (args_cls modname f) attrs)) attrs0 (pre @ g # post))
                (fn_name g @ ''_result'')
         = Some (result_cls modname g)"
  by (simp add: service_attrs_later [OF assms] update_conv')

lemma last_declaration:
  assumes "f \<in> set funcs"
  shows "\<exists>pre g post. funcs = pre @ g # post \<and> fn_name g = fn_name f
           \<and> fn_name f \<notin> fn_name ` set post"
proof -
  from assms have "\<exists>g \<in> set funcs. fn_name g = fn_name f" by blast
  from split_list_last_prop [OF this] show ?thesis by (metis imageE)
qed

lemma result_cls_success:
  "map_of (thrift_spec (result_cls modname f)) 0
     = Some (case fn_type f of
               TBase c \<Rightarrow> Spec3 c ''success'' False
             | TList e \<Rightarrow> Spec4 LIST ''success'' (PElem e) False
             | TSet e \<Rightarrow> Spec4 SET ''success'' (PElem e) False
             | TMap kt vt \<Rightarrow> Spec4 MAP ''success'' (PKeyVal kt vt) False
             | TEnum c \<Rightarrow> Spec4 I32 ''success'' (PEnumCls c) False
             | TStruct c \<Rightarrow> Spec4 (s_ttype c) ''success'' (PStructCls c) False)
   \<and> default_spec (result_cls modname f) ! 0 = (''success'', PNone)
   \<and> oneway (result_cls modname f) = Some (fn_oneway f)"
  by (cases "fn_type f") (simp_all add: result_cls_def make_struct_def update_conv' ttype_spec_def)

lemma result_cls_no_throws:
  "fn_throws f = [] \<Longrightarrow>
     result_cls modname f
       = StructCls modname (fn_name f @ ''_result'') STRUCT TPayload
           [(0, ttype_spec (fn_type f) ''success'' False)] [(''success'', PNone)] [] (Some (fn_oneway f))"
  by (simp add: result_cls_def make_struct_def)

text \<open>
  Claim C3, as stated, fails: the result class has the field 0 \<^verbatim>\<open>success\<close> when the
  function returns \<^verbatim>\<open>void\<close> as well. For \<^verbatim>\<open>service Svc { oneway void f() }\<close> the class
  \<^verbatim>\<open>f_result\<close> has one entry in \<^verbatim>\<open>thrift_spec\<close>, \<^verbatim>\<open>(TType.VOID, 'success', False)\<close>, and
  one in \<^verbatim>\<open>default_spec\<close>.
\<close>

theorem result_cls_void_counterexample:
  "result_cls ''m'' \<lparr> fn_oneway = True, fn_type = TBase VOID, fn_name = ''f'', fn_fields = [], fn_throws = [] \<rparr>
     = StructCls ''m'' ''f_result'' STRUCT TPayload
         [(0, Spec3 VOID ''success'' False)] [(''success'', PNone)] [] (Some True)
   \<and> snd (eval_definition (Module ''m'' [])
        [Service ''Svc'' None (Seq_nosep (Function (Some ''oneway'') Void ''f'' Seq_empty None) Seq_empty)])
     = Module ''m'' [(''Svc'', EService (ServiceCls ''m'' ''Svc'' None
         [(''f_args'', StructCls ''m'' ''f_args'' STRUCT TPayload [] [] [] None),
          (''f_result'', StructCls ''m'' ''f_result'' STRUCT TPayload
             [(0, Spec3 VOID ''success'' False)] [(''success'', PNone)] [] (Some True))]
         [''f'']))]"
  by (simp add: result_cls_def args_cls_def make_struct_def ttype_spec_def p_function_def p_service_def
        make_service_def module_setattr_def reserved_def)

text \<open>
  Claim C3, amended. For every function declared in a service, the class
  \<^verbatim>\<open><name>_result\<close> of the service is the result class of the last function declared under
  that name (of that very function when the names are distinct). It always has the field
  0 named \<^verbatim>\<open>success\<close>, whose type is the declared return type (the tag \<^verbatim>\<open>VOID\<close> and no
  payload for a function that returns \<^verbatim>\<open>void\<close>), with required = false; \<^verbatim>\<open>success\<close> is
  the first entry of the default list, with default none; and the class carries the
  \<^verbatim>\<open>oneway\<close> flag of the function. When the function declares no exception, \<^verbatim>\<open>success\<close>
  is the only field of the class.
\<close>

theorem make_service_result:
  assumes "f \<in> set funcs"
  shows "\<exists>pre g post. funcs = pre @ g # post \<and> fn_name g = fn_name f
           \<and> fn_name f \<notin> fn_name ` set post
           \<and> (distinct (map fn_name funcs) \<longrightarrow> g = f)
           \<and> map_of (sv_attrs (make_service modname name funcs extends)) (fn_name f @ ''_result'')
               = Some (result_cls modname g)
           \<and> map_of (thrift_spec (result_cls modname g)) 0
               = Some (case fn_type g of
                         TBase c \<Rightarrow> Spec3 c ''success'' False
                       | TList e \<Rightarrow> Spec4 LIST ''success'' (PElem e) False
                       | TSet e \<Rightarrow> Spec4 SET ''success'' (PElem e) False
                       | TMap kt vt \<Rightarrow> Spec4 MAP ''success'' (PKeyVal kt vt) False
                       | TEnum c \<Rightarrow> Spec4 I32 ''success'' (PEnumCls c) False
                       | TStruct c \<Rightarrow> Spec4 (s_ttype c) ''success'' (PStructCls c) False)
           \<and> default_spec (result_cls modname g) ! 0 = (''success'', PNone)
           \<and> oneway (result_cls modname g) = Some (fn_oneway g)
           \<and> (fn_throws g = [] \<longrightarrow>
                result_cls modname g
                  = StructCls modname (fn_name f @ ''_result'') STRUCT TPayload
                      [(0, ttype_spec (fn_type g) ''success'' False)] [(''success'', PNone)] []
                      (Some (fn_oneway g)))"
proof -
  from last_declaration [OF assms] obtain pre g post where
    g: "funcs = pre @ g # post" and n: "fn_name g = fn_name f"
    and l: "fn_name f \<notin> fn_name ` set post"
    by blast
  have d: "distinct (map fn_name funcs) \<longrightarrow> g = f"
  proof
    assume "distinct (map fn_name funcs)"
    then have "inj_on fn_name (set funcs)" by (simp add: distinct_map)
    moreover have "g \<in> set funcs" unfolding g by simp
    ultimately show "g = f" using assms n by (simp add: inj_on_def)
  qed
  have l': "fn_name g \<notin> fn_name ` set post" unfolding n by (rule l)
  have "map_of (sv_attrs (make_service modname name (pre @ g # post) extends)) (fn_name g @ ''_result'')
          = Some (result_cls modname g)"
    unfolding make_service_def service_cls.sel by (rule map_of_service_attrs [OF l'])
  then have a: "map_of (sv_attrs (make_service modname name funcs extends)) (fn_name f @ ''_result'')
                  = Some (result_cls modname g)"
    unfolding g n .
  have r: "fn_throws g = [] \<longrightarrow>
             result_cls modname g
               = StructCls modname (fn_name f @ ''_result'') STRUCT TPayload
                   [(0, ttype_spec (fn_type g) ''success'' False)] [(''success'', PNone)] []
                   (Some (fn_oneway g))"
    using result_cls_no_throws [of g modname] unfolding n by blast
  from g n l d a result_cls_success [of modname g] r show ?thesis by blast
qed

theorem make_service_result_witness:
  "\<lparr> fn_oneway = False, fn_type = TBase I32, fn_name = ''f'', fn_fields = [], fn_throws = [] \<rparr>
     \<in> set [\<lparr> fn_oneway = False, fn_type = TBase I32, fn_name = ''f'', fn_fields = [], fn_throws = [] \<rparr>,
             \<lparr> fn_oneway = True, fn_type = TBase VOID, fn_name = ''f'', fn_fields = [], fn_throws = [] \<rparr>]
   \<and> map_of (sv_attrs (make_service ''m'' ''Svc''
         [\<lparr> fn_oneway = False, fn_type = TBase I32, fn_name = ''f'', fn_fields = [], fn_throws = [] \<rparr>,
          \<lparr> fn_oneway = True, fn_type = TBase VOID, fn_name = ''f'', fn_fields = [], fn_throws = [] \<rparr>] None))
       ''f_result''
     = Some (StructCls ''m'' ''f_result'' STRUCT TPayload
           [(0, Spec3 VOID ''success'' False)] [(''success'', PNone)] [] (Some True))"
proof -
  define f1 where "f1 = \<lparr> fn_oneway = False, fn_type = TBase I32, fn_name = ''f'', fn_fields = [], fn_throws = [] \<rparr>"
  define f2 where "f2 = \<lparr> fn_oneway = True, fn_type = TBase VOID, fn_name = ''f'', fn_fields = [], fn_throws = [] \<rparr>"
  have mem: "f1 \<in> set [f1, f2]" by simp
  from make_service_result [OF mem, of "''m''" "''Svc''" None] obtain pre g post where
    eq: "[f1, f2] = pre @ g # post" and l: "fn_name f1 \<notin> fn_name ` set post"
    and a: "map_of (sv_attrs (make_service ''m'' ''Svc'' [f1, f2] None)) (fn_name f1 @ ''_result'')
              = Some (result_cls ''m'' g)"
    and r: "fn_throws g = [] \<longrightarrow>
              result_cls ''m'' g
                = StructCls ''m'' (fn_name f1 @ ''_result'') STRUCT TPayload
                    [(0, ttype_spec (fn_type g) ''success'' False)] [(''success'', PNone)] []
                    (Some (fn_oneway g))"
    by blast
  have "last (pre @ g # post) = f2" unfolding eq [symmetric] by simp
  moreover have "post = []"
  proof (rule ccontr)
    assume "post \<noteq> []"
    then have "last (pre @ g # post) \<in> set post" by simp
    then have "f2 \<in> set post" unfolding eq [symmetric] by simp
    then have "fn_name f2 \<in> fn_name ` set post" by (rule imageI)
    then show False using l by (simp add: f1_def f2_def)
  qed
  ultimately have g: "g = f2" by simp
  show ?thesis
    using a r unfolding g by (simp add: f1_def f2_def ttype_spec_def)
qed

subsection \<open>The bound on the depth of the calls\<close>

text \<open>A result reached within a bound is the result within every larger bound.\<close>

lemma parse_fuel_Suc:
  "parse n files st pth mname incl = Some r \<Longrightarrow> parse (Suc n) files st pth mname incl = Some r"
  "header n files st hs = Some h \<Longrightarrow> header (Suc n) files st hs = Some h"
proof (induction n files st pth mname incl and n files st hs
    arbitrary: r and h rule: parse_header.induct)
  case (1 files st pth mname incl)
  then show ?case by simp
next
  case (2 n files st pth mname incl)
  let ?st1 = "case incl of None \<Rightarrow> st | Some d \<Rightarrow> st\<lparr>include_dir' := d\<rparr>"
  show ?case
  proof (cases "\<not> endswith pth ''.thrift''")
    case True
    then show ?thesis using "2.prems" by (simp add: Let_def)
  next
    case suffix: False
    show ?thesis
    proof (cases "files pth")
      case None
      then show ?thesis using "2.prems" suffix by (simp add: Let_def)
    next
      case (Some data)
      show ?thesis
      proof (cases "mname \<noteq> None \<and> \<not> endswith (the mname) ''_thrift''")
        case True
        then show ?thesis using "2.prems" suffix Some by (simp add: Let_def)
      next
        case modname: False
        let ?name = "case mname of
                       None \<Rightarrow> take (length (os_path_basename pth) - 7) (os_path_basename pth)
                     | Some name \<Rightarrow> name"
        let ?st2 = "?st1\<lparr>thrift_stack := thrift_stack ?st1 @ [Module ?name []]\<rparr>"
        from "2.prems" suffix Some modname obtain h where
          h: "header n files ?st2 (headers data) = Some h"
          by (auto simp: Let_def split: option.splits)
        have h': "header (Suc n) files ?st2 (headers data) = Some h"
          using "2.IH" [OF refl suffix Some modname refl refl h] .
        have "parse (Suc (Suc n)) files st pth mname incl
              = (case Some h of None \<Rightarrow> None
                  | Some (Some e, st3) \<Rightarrow> Some (Inl e, st3)
                  | Some (None, st3) \<Rightarrow>
                      if thrift_stack st3 = [] then Some (Inl IndexError, st3)
                      else case eval_definition (last (thrift_stack st3)) (definitions data) of
                        (Some e, thrift) \<Rightarrow>
                          Some (Inl e, st3\<lparr>thrift_stack := butlast (thrift_stack st3) @ [thrift]\<rparr>)
                      | (None, thrift) \<Rightarrow>
                          Some (Inr thrift, st3\<lparr>thrift_stack := butlast (thrift_stack st3)\<rparr>))"
          using suffix Some modname h' by (auto simp: Let_def)
        moreover have "parse (Suc n) files st pth mname incl
              = (case Some h of None \<Rightarrow> None
                  | Some (Some e, st3) \<Rightarrow> Some (Inl e, st3)
                  | Some (None, st3) \<Rightarrow>
                      if thrift_stack st3 = [] then Some (Inl IndexError, st3)
                      else case eval_definition (last (thrift_stack st3)) (definitions data) of
                        (Some e, thrift) \<Rightarrow>
                          Some (Inl e, st3\<lparr>thrift_stack := butlast (thrift_stack st3) @ [thrift]\<rparr>)
                      | (None, thrift) \<Rightarrow>
                          Some (Inr thrift, st3\<lparr>thrift_stack := butlast (thrift_stack st3)\<rparr>))"
          using suffix Some modname h by (auto simp: Let_def)
        ultimately show ?thesis using "2.prems" by simp
      qed
    qed
  qed
next
  case (3 n files st)
  then show ?case by simp
next
  case (4 n files st scope ident hs)
  then show ?case by simp
next
  case (5 n files st literal hs)
  show ?case
  proof (cases "thrift_stack st = []")
    case True
    then show ?thesis using "5.prems" by simp
  next
    case nonempty: False
    from "5.prems" nonempty obtain res1 st1 where
      p: "parse n files st (os_path_join (include_dir' st) literal) None None = Some (res1, st1)"
      by (auto split: option.splits)
    have p': "parse (Suc n) files st (os_path_join (include_dir' st) literal) None None = Some (res1, st1)"
      using "5.IH"(1) [OF nonempty p] .
    show ?thesis
    proof (cases res1)
      case (Inl e)
      then show ?thesis using "5.prems" nonempty p p' by simp
    next
      case (Inr child)
      show ?thesis
      proof (cases "module_setattr (last (thrift_stack st)) (m_name child) (EModule child)")
        case (Inl e)
        then show ?thesis using "5.prems" nonempty p p' Inr by simp
      next
        case inr: (Inr thrift)
        have "header n files (st1\<lparr>thrift_stack := butlast (thrift_stack st1) @ [thrift]\<rparr>) hs = Some h"
          using "5.prems" nonempty p Inr inr by simp
        then have "header (Suc n) files (st1\<lparr>thrift_stack := butlast (thrift_stack st1) @ [thrift]\<rparr>) hs = Some h"
          using "5.IH"(2) [OF nonempty p refl Inr inr] by simp
        then show ?thesis using nonempty p' Inr inr by simp
      qed
    qed
  qed
qed

lemma parse_fuel_mono:
  "parse n files st pth mname incl = Some r \<Longrightarrow> parse (n + k) files st pth mname incl = Some r"
  by (induction k) (simp_all add: parse_fuel_Suc(1) del: parse.simps)

subsection \<open>Fields and their qualifier\<close>

lemma p_field_req_kept: "f_req f = r" if "p_field fid r t name const = Inr f"
  using that by (auto simp: p_field_def split: option.splits sum.splits error.splits)

lemma eval_field_req:
  "eval_field thrift (Field fid req ft name const) = Inr f \<Longrightarrow> f_req f = p_field_req req"
  by (auto split: sum.splits option.splits if_splits dest: p_field_req_kept)

lemma eval_field_as_optional: "eval_field thrift (as_optional f) = eval_field thrift f"
proof (cases f)
  case (Field fid req ft name const)
  then show ?thesis by (cases req) (simp_all split: sum.splits option.splits)
qed

lemma eval_seq_as_optional:
  "eval_seq (eval_field thrift) (map_seq_cst as_optional s) = eval_seq (eval_field thrift) s"
  by (induction s) (simp_all add: eval_field_as_optional split: sum.splits)

text \<open>
  Claim C10. The field built for a field declaration is required only when the qualifier
  \<^verbatim>\<open>required\<close> is written: a field without a qualifier and the same field with the
  qualifier \<^verbatim>\<open>optional\<close> give the same result, and a struct declared with unqualified
  fields gives the same module as the struct with these fields declared \<^verbatim>\<open>optional\<close>.
\<close>

theorem field_required_only_when_written:
  "(eval_field thrift (Field fid req ft name const) = Inr f \<longrightarrow>
      f_req f = (req = Field_req_token ''required''))
   \<and> eval_field thrift (Field fid Field_req_empty ft name const)
       = eval_field thrift (Field fid (Field_req_token ''optional'') ft name const)
   \<and> definition_unit thrift (Struct sname (map_seq_cst as_optional s))
       = definition_unit thrift (Struct sname s)"
proof -
  have "p_field_req req = (req = Field_req_token ''required'')"
    by (cases req) simp_all
  then have "eval_field thrift (Field fid req ft name const) = Inr f \<longrightarrow>
      f_req f = (req = Field_req_token ''required'')"
    using eval_field_req by blast
  moreover have "eval_field thrift (Field fid Field_req_empty ft name const)
       = eval_field thrift (Field fid (Field_req_token ''optional'') ft name const)"
    by (simp split: sum.splits option.splits)
  moreover have "definition_unit thrift (Struct sname (map_seq_cst as_optional s))
       = definition_unit thrift (Struct sname s)"
    by (simp add: eval_seq_as_optional)
  ultimately show ?thesis by blast
qed

theorem field_required_only_when_written_witness:
  "eval_field (Module ''m'' []) (Field 1 (Field_req_token ''required'') (Definition_type (Base_type ''i32'')) ''a'' None)
     = Inr \<lparr> f_id = 1, f_req = True, f_type = TBase I32, f_name = ''a'', f_default = PNone \<rparr>
   \<and> eval_field (Module ''m'' []) (Field 1 (Field_req_token ''optional'') (Definition_type (Base_type ''i32'')) ''a'' None)
     = Inr \<lparr> f_id = 1, f_req = False, f_type = TBase I32, f_name = ''a'', f_default = PNone \<rparr>
   \<and> eval_field (Module ''m'' []) (Field 1 Field_req_empty (Definition_type (Base_type ''i32'')) ''a'' None)
     = Inr \<lparr> f_id = 1, f_req = False, f_type = TBase I32, f_name = ''a'', f_default = PNone \<rparr>"
  using field_required_only_when_written [of "Module ''m'' []" 1 "Field_req_token ''required''"
      "Definition_type (Base_type ''i32'')" "''a''" None
      "\<lparr> f_id = 1, f_req = True, f_type = TBase I32, f_name = ''a'', f_default = PNone \<rparr>"]
  by (simp add: p_base_type_def p_field_def)

text \<open>
  Claim C4, as stated, fails: the two fields of \<^verbatim>\<open>struct S { 1: i32 a; 2: string b; }\<close>
  are not required. The module \<open>parse\<close> returns is not the one in which both fields
  carry required = true.
\<close>

theorem struct_two_fields_counterexample:
  "map_sum id (map f_req)
     (eval_seq (eval_field (Module ''s'' []))
        (Seq_sep (Field 1 Field_req_empty (Definition_type (Base_type ''i32'')) ''a'' None)
          (Seq_sep (Field 2 Field_req_empty (Definition_type (Base_type ''string'')) ''b'' None) Seq_empty)))
     = Inr [False, False]
   \<and> parse 1 struct_files initial_state ''s.thrift'' None None
     \<noteq> Some (Inr (Module ''s'' [(''S'', EStruct (StructCls ''s'' ''S'' STRUCT TPayload
          [(1, Spec3 I32 ''a'' True), (2, Spec3 STRING ''b'' True)]
          [(''a'', PNone), (''b'', PNone)]
          [(''a'', True, TBase I32), (''b'', True, TBase STRING)]
          None))]), initial_state)"
  by (simp add: struct_files_def struct_S_cst_def initial_state_def endswith_def os_path_basename_def
        p_base_type_def p_field_def p_struct_def make_struct_def ttype_spec_def module_setattr_def reserved_def Let_def)

text \<open>
  Claim C4, amended. Parsing \<^verbatim>\<open>struct S { 1: i32 a; 2: string b; }\<close> yields a struct
  class with exactly two fields, indexed by their ids 1 and 2 in that order, and both
  fields carry required = false. (The file includes no other: every bound of at least one
  call gives the result.)
\<close>

theorem struct_two_fields:
  "parse (Suc n) struct_files initial_state ''s.thrift'' None None
     = Some (Inr (Module ''s'' [(''S'', EStruct (StructCls ''s'' ''S'' STRUCT TPayload
          [(1, Spec3 I32 ''a'' False), (2, Spec3 STRING ''b'' False)]
          [(''a'', PNone), (''b'', PNone)]
          [(''a'', False, TBase I32), (''b'', False, TBase STRING)]
          None))]), initial_state)"
  by (simp add: struct_files_def struct_S_cst_def initial_state_def endswith_def os_path_basename_def
        p_base_type_def p_field_def p_struct_def make_struct_def ttype_spec_def module_setattr_def reserved_def Let_def)

subsection \<open>Constant references\<close>

lemma split_dot_not_Nil: "split_dot s \<noteq> []"
  by (induction s) (auto split: list.splits)

text \<open>
  Claim C5, as stated, fails: a constant reference of three keys raises although every key
  resolves. In the module \<^verbatim>\<open>main\<close>, the path \<^verbatim>\<open>child_module.EnumName.MEMBER\<close> leads to
  the value 1 of the member, key by key; \<open>p_const_ref\<close> raises the error that no enum
  value or constant of that name is found, and so does the parse of \<^verbatim>\<open>main.thrift\<close>.
\<close>

theorem p_const_ref_three_keys_counterexample:
  "walk (EModule main_module) (split_dot ''child_module.EnumName.MEMBER'') = Inr (Some (EConst (PInt 1)))
   \<and> p_const_ref main_module ''child_module.EnumName.MEMBER''
       = Inl (ThriftParserError (NoEnumValueOrConstant ''child_module.EnumName.MEMBER''))
   \<and> parse 2 include_files initial_state ''main.thrift'' None None
       = Some (Inl (ThriftParserError (NoEnumValueOrConstant ''child_module.EnumName.MEMBER'')),
               \<lparr> thrift_stack = [main_module], include_dir' = ''.'' \<rparr>)"
  by (simp add: main_module_def child_module_def getattr_ent_def reserved_def p_const_ref_def
        include_files_def initial_state_def endswith_def os_path_join_def os_path_basename_def
        make_enum_def setattrs_def List.map_filter_simps p_enum_def module_setattr_def
        p_base_type_def numeral_2_eq_2 Let_def)

text \<open>
  Claim C5, amended. A constant reference is resolved in the namespace of the current
  module one key at a time when its path has one or two keys: it yields the entity found
  when every key resolves, and raises the error of an unresolved reference, which carries
  the path, when a key is missing. A path of more than two keys always raises that error.
\<close>

theorem p_const_ref_walks_two_keys:
  "p_const_ref thrift ident =
     (if length (split_dot ident) \<le> 2 then
        (case walk (EModule thrift) (split_dot ident) of
           Inl e \<Rightarrow> Inl e
         | Inr None \<Rightarrow> Inl (ThriftParserError (NoEnumValueOrConstant ident))
         | Inr (Some val) \<Rightarrow> Inr val)
      else Inl (ThriftParserError (NoEnumValueOrConstant ident)))"
proof (cases "split_dot ident")
  case Nil
  then show ?thesis using split_dot_not_Nil by blast
next
  case (Cons k1 ks)
  note outer = Cons
  show ?thesis
  proof (cases ks)
    case Nil
    then show ?thesis
      by (simp add: p_const_ref_def outer split: sum.splits option.splits)
  next
    case (Cons k2 ks')
    then show ?thesis
      by (cases ks') (simp_all add: p_const_ref_def outer split: sum.splits option.splits)
  qed
qed

theorem p_const_ref_walks_two_keys_witness:
  "p_const_ref main_module ''child_module.EnumName''
     = Inr (EEnum \<lparr> e_module = ''child_module'', e_name = ''EnumName'',
                     named_values = {1}, e_attrs = [(''MEMBER'', 1)] \<rparr>)
   \<and> p_const_ref child_module ''EnumName.MEMBER'' = Inr (EConst (PInt 1))
   \<and> p_const_ref child_module ''EnumName.OTHER''
       = Inl (ThriftParserError (NoEnumValueOrConstant ''EnumName.OTHER''))
   \<and> p_const_ref main_module ''child_module.EnumName.MEMBER''
       = Inl (ThriftParserError (NoEnumValueOrConstant ''child_module.EnumName.MEMBER''))"
  using p_const_ref_walks_two_keys [of main_module "''child_module.EnumName''"]
    p_const_ref_walks_two_keys [of child_module "''EnumName.MEMBER''"]
    p_const_ref_walks_two_keys [of child_module "''EnumName.OTHER''"]
    p_const_ref_walks_two_keys [of main_module "''child_module.EnumName.MEMBER''"]
  by (simp add: main_module_def child_module_def getattr_ent_def reserved_def)

subsection \<open>Base types\<close>

text \<open>
  Claim C6, as stated, fails: a boolean literal is accepted for the integer types, since
  \<^verbatim>\<open>isinstance(True, int)\<close> holds.
\<close>

theorem cast_bool_as_integer_counterexample:
  "cast (TBase I16) (PBool True) = Inr (PBool True, PBool True)
   \<and> cast (TBase I32) (PBool True) = Inr (PBool True, PBool True)
   \<and> cast (TBase I64) (PBool False) = Inr (PBool False, PBool False)"
  by (simp add: cast_i16_def cast_i32_def cast_i64_def)

text \<open>
  Claim C6, amended. For the types \<^verbatim>\<open>bool\<close>, \<^verbatim>\<open>i16\<close>, \<^verbatim>\<open>i32\<close>, \<^verbatim>\<open>i64\<close>, \<^verbatim>\<open>double\<close>,
  \<^verbatim>\<open>string\<close> and \<^verbatim>\<open>binary\<close> and every literal, the cast succeeds, and returns the literal
  as it is, exactly when the literal is of the kind of the type, and fails the assertion
  otherwise: a boolean for \<^verbatim>\<open>bool\<close>; an integer or a boolean for \<^verbatim>\<open>i16\<close>, \<^verbatim>\<open>i32\<close> and
  \<^verbatim>\<open>i64\<close>; a float for \<^verbatim>\<open>double\<close> (an integer literal is rejected); a string for
  \<^verbatim>\<open>string\<close> and \<^verbatim>\<open>binary\<close>.
\<close>

theorem cast_primitive_kinds:
  "cast (TBase BOOL) v = (if (\<exists>b. v = PBool b) then Inr (v, v) else Inl AssertionError)
   \<and> cast (TBase I16) v
       = (if (\<exists>i. v = PInt i) \<or> (\<exists>b. v = PBool b) then Inr (v, v) else Inl AssertionError)
   \<and> cast (TBase I32) v
       = (if (\<exists>i. v = PInt i) \<or> (\<exists>b. v = PBool b) then Inr (v, v) else Inl AssertionError)
   \<and> cast (TBase I64) v
       = (if (\<exists>i. v = PInt i) \<or> (\<exists>b. v = PBool b) then Inr (v, v) else Inl AssertionError)
   \<and> cast (TBase DOUBLE) v = (if (\<exists>f. v = PFloat f) then Inr (v, v) else Inl AssertionError)
   \<and> cast (TBase STRING) v = (if (\<exists>s. v = PStr s) then Inr (v, v) else Inl AssertionError)
   \<and> cast (TBase BINARY) v = (if (\<exists>s. v = PStr s) then Inr (v, v) else Inl AssertionError)"
  by (cases v) (simp_all add: cast_bool_def cast_i16_def cast_i32_def cast_i64_def cast_double_def
        cast_string_def cast_binary_def)

theorem cast_primitive_kinds_witness:
  "cast (TBase DOUBLE) (PInt 1) = Inl AssertionError
   \<and> cast (TBase DOUBLE) (PFloat 1) = Inr (PFloat 1, PFloat 1)
   \<and> cast (TBase I32) (PInt 1) = Inr (PInt 1, PInt 1)
   \<and> cast (TBase I32) (PStr ''1'') = Inl AssertionError
   \<and> cast (TBase BOOL) (PInt 1) = Inl AssertionError"
  using cast_primitive_kinds [of "PInt 1"] cast_primitive_kinds [of "PFloat 1"]
    cast_primitive_kinds [of "PStr ''1''"]
  by simp

subsection \<open>What the caster does to its argument\<close>

lemma cast_base_result: "cast (TBase c) v = Inr (v', r) \<Longrightarrow> v' = v \<and> r = v"
  by (auto simp: cast_bool_def cast_byte_def cast_i16_def cast_i32_def cast_i64_def cast_double_def
        cast_string_def cast_binary_def split: if_splits)

lemma cast_list_result: "cast (TList t) v = Inr (v', r) \<Longrightarrow> v' = v \<and> r = v"
  by (auto split: if_splits option.splits)

lemma cast_set_result:
  assumes "cast (TSet t) v = Inr (v', r)"
  shows "v' = v \<and> ((\<exists>xs. v = PSet xs \<and> r = v)
                   \<or> (\<exists>xs ys. v = PList xs \<and> set_add_all [] xs = Inr ys \<and> r = PSet ys))"
proof (cases v)
  case (PList xs)
  with assms show ?thesis by (auto simp: py_set_def split: if_splits option.splits sum.splits)
next
  case (PSet xs)
  with assms show ?thesis by (auto split: if_splits option.splits)
qed (insert assms, simp_all)

lemma cast_enum_result: "cast (TEnum c) v = Inr (v', r) \<Longrightarrow> v' = v \<and> r = v"
  by (auto split: if_splits)

lemma cast_map_result: "cast (TMap kt vt) v = Inr (v', r) \<Longrightarrow> v' = r"
  by (cases v) (auto split: sum.splits)

lemma cast_returns_argument:
  "returns_argument t \<Longrightarrow> cast t v = Inr (v', r) \<Longrightarrow> v' = v \<and> r = v"
  "returns_argument kt \<Longrightarrow> returns_argument vt \<Longrightarrow> cast_map_items kt vt items = Inr items' \<Longrightarrow> items' = items"
  "cast_struct_items c items = Inr items' \<Longrightarrow> True"
proof (induction t v and kt vt items and c items arbitrary: v' r and items' and items'
    rule: cast_cast_map_items_cast_struct_items.induct)
  case (1 c v)
  then show ?case using cast_base_result by blast
next
  case (2 t v)
  then show ?case using cast_list_result by blast
next
  case (4 kt vt items)
  then show ?case by (auto split: sum.splits)
next
  case (6 c v)
  then show ?case using cast_enum_result by blast
next
  case (11 kt vt key x items)
  from "11.prems"(3) obtain x' r k' k rest where
    cx: "cast vt x = Inr (x', r)" and ck: "cast kt key = Inr (k', k)"
    and cr: "cast_map_items kt vt items = Inr rest" and items': "items' = (k, r) # rest"
    by (auto split: sum.splits)
  have "r = x" using "11.IH"(1) "11.prems"(2) cx by blast
  moreover have "k = key" using "11.IH"(2) [OF cx refl] "11.prems"(1) ck by blast
  moreover have "rest = items" using "11.IH"(3) [OF cx refl ck refl] "11.prems"(1,2) cr by blast
  ultimately show ?case using items' by simp
next
  case (3 t v)
  from "3.prems"(1) show ?case by simp
next
  case (7 c cid attrs)
  from "7.prems"(1) show ?case by simp
next
  case (8 c items)
  from "8.prems"(1) show ?case by simp
next
  case (10 kt vt)
  from "10.prems"(3) show ?case by simp
qed simp_all

lemma cast_map_items_stored:
  "cast_map_items kt vt items = Inr items' \<Longrightarrow>
     list_all2 (\<lambda>(key, x) (k, r). (\<exists>a. cast kt key = Inr (a, k)) \<and> (\<exists>a. cast vt x = Inr (a, r)))
       items items'"
proof (induction items arbitrary: items')
  case Nil
  then show ?case by simp
next
  case (Cons item items)
  obtain key x where item: "item = (key, x)" by (cases item)
  from Cons.prems item obtain x' r k' k rest where
    cx: "cast vt x = Inr (x', r)" and ck: "cast kt key = Inr (k', k)"
    and cr: "cast_map_items kt vt items = Inr rest" and items': "items' = (k, r) # rest"
    by (auto split: sum.splits)
  from Cons.IH [OF cr] show ?case using cx ck items' item by simp
qed

lemma cast_struct_items_stored:
  "cast_struct_items c items = Inr items' \<Longrightarrow>
     list_all2 (\<lambda>(key, x) (k, r). k = key \<and>
         (\<exists>s req t a. key = PStr s \<and> map_of (tspec c) s = Some (req, t) \<and> cast t x = Inr (a, r)))
       items items'"
proof (induction items arbitrary: items')
  case Nil
  then show ?case by simp
next
  case (Cons item items)
  obtain key x where item: "item = (key, x)" by (cases item)
  from Cons.prems item obtain s req t x' r rest where
    key: "key = PStr s" and ts: "map_of (tspec c) s = Some (req, t)"
    and cx: "cast t x = Inr (x', r)"
    and cr: "cast_struct_items c items = Inr rest" and items': "items' = (key, r) # rest"
    by (auto split: sum.splits option.splits pyval.splits)
  from Cons.IH [OF cr] show ?case using key ts cx items' item by simp
qed

lemma cast_map_stored:
  assumes "cast (TMap kt vt) v = Inr (v', r)"
  shows "\<exists>items items'. v = PDict items \<and> v' = PDict items' \<and> r = PDict items'
           \<and> list_all2 (\<lambda>(key, x) (k, y). (\<exists>a. cast kt key = Inr (a, k)) \<and> (\<exists>a. cast vt x = Inr (a, y)))
                items items'"
proof (cases v)
  case (PDict items)
  with assms obtain items' where "cast_map_items kt vt items = Inr items'" "v' = PDict items'" "r = PDict items'"
    by (auto split: sum.splits)
  then show ?thesis using PDict cast_map_items_stored by blast
qed (insert assms, simp_all)

lemma cast_struct_stored:
  assumes "cast (TStruct c) v = Inr (v', r)"
  shows "\<exists>items items'. v = PDict items \<and> v' = PDict items' \<and> r = construct c (kwargs_of items')
           \<and> list_all2 (\<lambda>(key, x) (k, y). k = key \<and>
                 (\<exists>s req t a. key = PStr s \<and> map_of (tspec c) s = Some (req, t) \<and> cast t x = Inr (a, y)))
               items items'"
proof (cases v)
  case (PDict items)
  with assms obtain items' where "cast_struct_items c items = Inr items'" "v' = PDict items'"
    "r = construct c (kwargs_of items')"
    by (auto split: sum.splits if_splits option.splits)
  then show ?thesis using PDict cast_struct_items_stored by blast
qed (insert assms, simp_all split: if_splits)

text \<open>
  Claim C7, as stated, fails: the cast of a map literal changes the mapping it is given.
  For the type \<^verbatim>\<open>map<i32, S>\<close> and the literal \<^verbatim>\<open>{1: {"a": 5}}\<close>, the dict holds, after
  the call, an instance of \<^verbatim>\<open>S\<close> where it held the dict \<^verbatim>\<open>{"a": 5}\<close>; no set is
  involved. For the type \<^verbatim>\<open>map<i32, set<i32>>\<close> and the literal \<^verbatim>\<open>{1: [2]}\<close>, the
  mapping holds a set, after the call, where it held the list.
\<close>

theorem cast_updates_mapping_counterexample:
  "cast (TMap (TBase I32) (TStruct struct_S)) (PDict [(PInt 1, PDict [(PStr ''a'', PInt 5)])])
     = Inr (PDict [(PInt 1, PInst (''m'', ''S'') [(''a'', PInt 5)])],
            PDict [(PInt 1, PInst (''m'', ''S'') [(''a'', PInt 5)])])
   \<and> PDict [(PInt 1, PInst (''m'', ''S'') [(''a'', PInt 5)])] \<noteq> PDict [(PInt 1, PDict [(PStr ''a'', PInt 5)])]
   \<and> cast (TMap (TBase I32) (TSet (TBase I32))) (PDict [(PInt 1, PList [PInt 2])])
     = Inr (PDict [(PInt 1, PSet [PInt 2])], PDict [(PInt 1, PSet [PInt 2])])
   \<and> PDict [(PInt 1, PSet [PInt 2])] \<noteq> PDict [(PInt 1, PList [PInt 2])]"
  by (simp add: struct_S_def make_struct_def ttype_spec_def missing_required_def cast_i32_def construct_def
        kwargs_of_def List.map_filter_simps py_set_def py_eq_def)

text \<open>
  Claim C7, amended. When the cast succeeds:

  \<^item> the caster of a base type and of an enum leaves the value it is given as it was and
    returns it;
  \<^item> the caster of a list returns the list it is given;
  \<^item> the caster of a set leaves the value it is given as it was; it returns a set as it
    is, and for a list it returns a new value, the set of the elements of the list;
  \<^item> the caster of a map is given a dict; for every item it stores, under the key the cast
    of the key returns, the value the cast of the value returns, and it returns that
    dict;
  \<^item> the caster of a struct, given a dict, stores for every item the value the cast to the
    type of the field returns, and returns the instance built from the dict so changed;
  \<^item> the value is left as it was, and is the value returned, whenever the type is built
    from base types, enums, and lists and maps of such types only.

  The statement is silent on what the caster of a list does to the elements of the list.
\<close>

theorem cast_input_after:
  assumes "cast t v = Inr (v', r)"
  shows "(case t of
            TBase c \<Rightarrow> v' = v \<and> r = v
          | TEnum c \<Rightarrow> v' = v \<and> r = v
          | TList e \<Rightarrow> r = v'
          | TSet e \<Rightarrow>
              v' = v \<and> ((\<exists>xs. v = PSet xs \<and> r = v)
                         \<or> (\<exists>xs ys. v = PList xs \<and> set_add_all [] xs = Inr ys \<and> r = PSet ys))
          | TMap kt vt \<Rightarrow>
              (\<exists>items items'. v = PDict items \<and> v' = PDict items' \<and> r = PDict items'
                 \<and> list_all2 (\<lambda>(key, x) (k, y).
                        (\<exists>a. cast kt key = Inr (a, k)) \<and> (\<exists>a. cast vt x = Inr (a, y)))
                      items items')
          | TStruct c \<Rightarrow>
              (\<exists>items items'. v = PDict items \<and> v' = PDict items'
                 \<and> r = construct c (kwargs_of items')
                 \<and> list_all2 (\<lambda>(key, x) (k, y). k = key \<and>
                        (\<exists>s req t a. key = PStr s \<and> map_of (tspec c) s = Some (req, t)
                           \<and> cast t x = Inr (a, y)))
                      items items'))
         \<and> (returns_argument t \<longrightarrow> v' = v \<and> r = v)"
proof -
  have "case t of
            TBase c \<Rightarrow> v' = v \<and> r = v
          | TEnum c \<Rightarrow> v' = v \<and> r = v
          | TList e \<Rightarrow> r = v'
          | TSet e \<Rightarrow>
              v' = v \<and> ((\<exists>xs. v = PSet xs \<and> r = v)
                         \<or> (\<exists>xs ys. v = PList xs \<and> set_add_all [] xs = Inr ys \<and> r = PSet ys))
          | TMap kt vt \<Rightarrow>
              (\<exists>items items'. v = PDict items \<and> v' = PDict items' \<and> r = PDict items'
                 \<and> list_all2 (\<lambda>(key, x) (k, y).
                        (\<exists>a. cast kt key = Inr (a, k)) \<and> (\<exists>a. cast vt x = Inr (a, y)))
                      items items')
          | TStruct c \<Rightarrow>
              (\<exists>items items'. v = PDict items \<and> v' = PDict items'
                 \<and> r = construct c (kwargs_of items')
                 \<and> list_all2 (\<lambda>(key, x) (k, y). k = key \<and>
                        (\<exists>s req t a. key = PStr s \<and> map_of (tspec c) s = Some (req, t)
                           \<and> cast t x = Inr (a, y)))
                      items items')"
  proof (cases t)
    case (TBase c)
    show ?thesis unfolding TBase ftype.case by (rule cast_base_result [OF assms [unfolded TBase]])
  next
    case (TList e)
    from cast_list_result [OF assms [unfolded TList]] have "r = v'" by simp
    then show ?thesis unfolding TList ftype.case .
  next
    case (TSet e)
    show ?thesis unfolding TSet ftype.case by (rule cast_set_result [OF assms [unfolded TSet]])
  next
    case (TMap kt vt)
    show ?thesis unfolding TMap ftype.case by (rule cast_map_stored [OF assms [unfolded TMap]])
  next
    case (TEnum c)
    show ?thesis unfolding TEnum ftype.case by (rule cast_enum_result [OF assms [unfolded TEnum]])
  next
    case (TStruct c)
    show ?thesis unfolding TStruct ftype.case by (rule cast_struct_stored [OF assms [unfolded TStruct]])
  qed
  moreover have "returns_argument t \<longrightarrow> v' = v \<and> r = v"
    using assms cast_returns_argument(1) by blast
  ultimately show ?thesis by (rule conjI)
qed

theorem cast_input_after_witness:
  "cast (TMap (TBase I32) (TList (TBase I32))) (PDict [(PInt 1, PList [PInt 2])])
     = Inr (PDict [(PInt 1, PList [PInt 2])], PDict [(PInt 1, PList [PInt 2])])
   \<and> returns_argument (TMap (TBase I32) (TList (TBase I32)))
   \<and> cast (TSet (TBase I32)) (PList [PInt 2, PInt 2]) = Inr (PList [PInt 2, PInt 2], PSet [PInt 2])
   \<and> set_add_all [] [PInt 2, PInt 2] = Inr [PInt 2]"
proof -
  have c: "cast (TMap (TBase I32) (TList (TBase I32))) (PDict [(PInt 1, PList [PInt 2])])
     = Inr (PDict [(PInt 1, PList [PInt 2])], PDict [(PInt 1, PList [PInt 2])])"
    by (simp add: cast_i32_def)
  have s: "cast (TSet (TBase I32)) (PList [PInt 2, PInt 2]) = Inr (PList [PInt 2, PInt 2], PSet [PInt 2])"
    by (simp add: py_set_def py_eq_def)
  show ?thesis using c s cast_input_after [OF c] cast_input_after [OF s] by simp
qed

subsection \<open>The include directory\<close>

lemma include_dir_kept:
  "parse n files st pth mname incl = Some (res, st') \<Longrightarrow>
     include_dir' st' = (case incl of None \<Rightarrow> include_dir' st | Some d \<Rightarrow> d)"
  "header n files st hs = Some (err, st') \<Longrightarrow> include_dir' st' = include_dir' st"
proof (induction n files st pth mname incl and n files st hs
    arbitrary: res st' and err st' rule: parse_header.induct)
  case (1 files st pth mname incl)
  then show ?case by simp
next
  case (2 n files st pth mname incl)
  let ?st1 = "case incl of None \<Rightarrow> st | Some d \<Rightarrow> st\<lparr>include_dir' := d\<rparr>"
  have st1: "include_dir' ?st1 = (case incl of None \<Rightarrow> include_dir' st | Some d \<Rightarrow> d)"
    by (cases incl) simp_all
  show ?case
  proof (cases "\<not> endswith pth ''.thrift''")
    case True
    then show ?thesis using "2.prems" st1 by (auto simp: Let_def)
  next
    case suffix: False
    show ?thesis
    proof (cases "files pth")
      case None
      then show ?thesis using "2.prems" st1 suffix by (auto simp: Let_def)
    next
      case (Some data)
      show ?thesis
      proof (cases "mname \<noteq> None \<and> \<not> endswith (the mname) ''_thrift''")
        case True
        then show ?thesis using "2.prems" st1 suffix Some by (auto simp: Let_def)
      next
        case modname: False
        let ?name = "case mname of
                       None \<Rightarrow> take (length (os_path_basename pth) - 7) (os_path_basename pth)
                     | Some name \<Rightarrow> name"
        let ?st2 = "?st1\<lparr>thrift_stack := thrift_stack ?st1 @ [Module ?name []]\<rparr>"
        from "2.prems" suffix Some modname obtain herr st3 where
          h: "header n files ?st2 (headers data) = Some (herr, st3)"
          by (auto simp: Let_def split: option.splits)
        have "include_dir' st3 = include_dir' ?st2"
          using "2.IH" [OF refl suffix Some modname refl refl h] by simp
        then have st3: "include_dir' st3 = (case incl of None \<Rightarrow> include_dir' st | Some d \<Rightarrow> d)"
          using st1 by simp
        from "2.prems" suffix Some modname h have "include_dir' st' = include_dir' st3"
          by (auto simp: Let_def split: option.splits if_splits prod.splits)
        then show ?thesis using st3 by simp
      qed
    qed
  qed
next
  case (3 n files st)
  then show ?case by simp
next
  case (4 n files st scope ident hs)
  then show ?case by simp
next
  case (5 n files st literal hs)
  show ?case
  proof (cases "thrift_stack st = []")
    case True
    then show ?thesis using "5.prems" by simp
  next
    case nonempty: False
    from "5.prems" nonempty obtain res1 st1 where
      p: "parse n files st (os_path_join (include_dir' st) literal) None None = Some (res1, st1)"
      by (auto split: option.splits)
    have st1: "include_dir' st1 = include_dir' st"
      using "5.IH"(1) [OF nonempty p] by simp
    show ?thesis
    proof (cases res1)
      case (Inl e)
      then show ?thesis using "5.prems" nonempty p st1 by simp
    next
      case (Inr child)
      show ?thesis
      proof (cases "module_setattr (last (thrift_stack st)) (m_name child) (EModule child)")
        case (Inl e)
        then show ?thesis using "5.prems" nonempty p st1 Inr by simp
      next
        case inr: (Inr thrift)
        have "header n files (st1\<lparr>thrift_stack := butlast (thrift_stack st1) @ [thrift]\<rparr>) hs = Some (err, st')"
          using "5.prems" nonempty p Inr inr by simp
        then have "include_dir' st' = include_dir' (st1\<lparr>thrift_stack := butlast (thrift_stack st1) @ [thrift]\<rparr>)"
          using "5.IH"(2) [OF nonempty p refl Inr inr] by simp
        then show ?thesis using st1 by simp
      qed
    qed
  qed
qed

text \<open>
  Claim C9, as stated, fails: after a call of \<open>parse\<close> with the include directory
  \<^verbatim>\<open>/inc\<close>, a call that omits the include directory resolves \<^verbatim>\<open>include "c.thrift"\<close> to
  \<^verbatim>\<open>/inc/c.thrift\<close> (where \<^verbatim>\<open>X\<close> is 1), not to \<^verbatim>\<open>./c.thrift\<close> (where \<^verbatim>\<open>X\<close> is 2), which
  the same call reads when no call came before.
\<close>

theorem parse_include_dir_counterexample:
  "parse 1 dir_files initial_state ''a.thrift'' None (Some ''/inc'')
     = Some (Inr (Module ''a'' []), \<lparr> thrift_stack = [], include_dir' = ''/inc'' \<rparr>)
   \<and> parse 2 dir_files \<lparr> thrift_stack = [], include_dir' = ''/inc'' \<rparr> ''b.thrift'' None None
     = Some (Inr (Module ''b'' [(''c'', EModule (Module ''c'' [(''X'', EConst (PInt 1))]))]),
             \<lparr> thrift_stack = [], include_dir' = ''/inc'' \<rparr>)
   \<and> parse 2 dir_files initial_state ''b.thrift'' None None
     = Some (Inr (Module ''b'' [(''c'', EModule (Module ''c'' [(''X'', EConst (PInt 2))]))]),
             \<lparr> thrift_stack = [], include_dir' = ''.'' \<rparr>)"
  by (simp add: dir_files_def initial_state_def endswith_def os_path_join_def os_path_basename_def
        module_setattr_def reserved_def p_base_type_def p_const_def cast_i32_def shared_update_def
        numeral_2_eq_2 Let_def)

text \<open>After a sequence of calls the global holds the directory of the last call that gave
  one.\<close>

lemma calls_include_dir:
  "calls n files st cs = Some st' \<Longrightarrow> include_dir' st' = latest_include_dir (include_dir' st) cs"
proof (induction cs arbitrary: st)
  case Nil
  then show ?case by simp
next
  case (Cons c cs)
  obtain pth mname incl where c: "c = (pth, mname, incl)" by (cases c)
  from Cons.prems c obtain res st1 where
    p: "parse n files st pth mname incl = Some (res, st1)" and r: "calls n files st1 cs = Some st'"
    by (auto split: option.splits)
  have "include_dir' st1 = (case incl of None \<Rightarrow> include_dir' st | Some d \<Rightarrow> d)"
    using include_dir_kept(1) [OF p] .
  then show ?case using Cons.IH [OF r] c by (cases incl) simp_all
qed

text \<open>A call reads the file at its path and files at paths joined from the include
  directory and the literal of an include statement, and no other file.\<close>

lemma parse_reads:
  "files' pth = files pth \<Longrightarrow>
   (\<forall>lit. files' (os_path_join (case incl of None \<Rightarrow> include_dir' st | Some d \<Rightarrow> d) lit)
           = files (os_path_join (case incl of None \<Rightarrow> include_dir' st | Some d \<Rightarrow> d) lit)) \<Longrightarrow>
   parse n files' st pth mname incl = parse n files st pth mname incl"
  "(\<forall>lit. files' (os_path_join (include_dir' st) lit) = files (os_path_join (include_dir' st) lit)) \<Longrightarrow>
   header n files' st hs = header n files st hs"
proof (induction n files st pth mname incl and n files st hs rule: parse_header.induct)
  case (1 files st pth mname incl)
  then show ?case by simp
next
  case (2 n files st pth mname incl)
  let ?st1 = "case incl of None \<Rightarrow> st | Some d \<Rightarrow> st\<lparr>include_dir' := d\<rparr>"
  have st1: "include_dir' ?st1 = (case incl of None \<Rightarrow> include_dir' st | Some d \<Rightarrow> d)"
    by (cases incl) simp_all
  show ?case
  proof (cases "\<not> endswith pth ''.thrift''")
    case True
    then show ?thesis by (simp add: Let_def)
  next
    case suffix: False
    show ?thesis
    proof (cases "files pth")
      case None
      then show ?thesis using "2.prems"(1) suffix by (simp add: Let_def)
    next
      case (Some data)
      show ?thesis
      proof (cases "mname \<noteq> None \<and> \<not> endswith (the mname) ''_thrift''")
        case True
        then show ?thesis using "2.prems"(1) suffix Some by (auto simp: Let_def)
      next
        case modname: False
        let ?name = "case mname of
                       None \<Rightarrow> take (length (os_path_basename pth) - 7) (os_path_basename pth)
                     | Some name \<Rightarrow> name"
        let ?st2 = "?st1\<lparr>thrift_stack := thrift_stack ?st1 @ [Module ?name []]\<rparr>"
        have agree: "\<forall>lit. files' (os_path_join (include_dir' ?st2) lit)
                           = files (os_path_join (include_dir' ?st2) lit)"
          using "2.prems"(2) st1 by simp
        have h: "header n files' ?st2 (headers data) = header n files ?st2 (headers data)"
          using "2.IH" [OF refl suffix Some modname refl refl agree] .
        have l: "parse (Suc n) files' st pth mname incl
                   = (case header n files' ?st2 (headers data) of
                        None \<Rightarrow> None
                      | Some (Some e, st3) \<Rightarrow> Some (Inl e, st3)
                      | Some (None, st3) \<Rightarrow>
                          if thrift_stack st3 = [] then Some (Inl IndexError, st3)
                          else case eval_definition (last (thrift_stack st3)) (definitions data) of
                            (Some e, thrift) \<Rightarrow>
                              Some (Inl e, st3\<lparr>thrift_stack := butlast (thrift_stack st3) @ [thrift]\<rparr>)
                          | (None, thrift) \<Rightarrow>
                              Some (Inr thrift, st3\<lparr>thrift_stack := butlast (thrift_stack st3)\<rparr>))"
          using "2.prems"(1) suffix Some modname by (auto simp: Let_def)
        have r: "parse (Suc n) files st pth mname incl
                   = (case header n files ?st2 (headers data) of
                        None \<Rightarrow> None
                      | Some (Some e, st3) \<Rightarrow> Some (Inl e, st3)
                      | Some (None, st3) \<Rightarrow>
                          if thrift_stack st3 = [] then Some (Inl IndexError, st3)
                          else case eval_definition (last (thrift_stack st3)) (definitions data) of
                            (Some e, thrift) \<Rightarrow>
                              Some (Inl e, st3\<lparr>thrift_stack := butlast (thrift_stack st3) @ [thrift]\<rparr>)
                          | (None, thrift) \<Rightarrow>
                              Some (Inr thrift, st3\<lparr>thrift_stack := butlast (thrift_stack st3)\<rparr>))"
          using suffix Some modname by (auto simp: Let_def)
        show ?thesis unfolding l r h ..
      qed
    qed
  qed
next
  case (3 n files st)
  then show ?case by simp
next
  case (4 n files st scope ident hs)
  then show ?case by simp
next
  case (5 n files st literal hs)
  show ?case
  proof (cases "thrift_stack st = []")
    case True
    then show ?thesis by simp
  next
    case nonempty: False
    let ?p = "os_path_join (include_dir' st) literal"
    have here: "files' ?p = files ?p" using "5.prems" by blast
    have agree: "\<forall>lit. files' (os_path_join (case None of None \<Rightarrow> include_dir' st | Some d \<Rightarrow> d) lit)
                       = files (os_path_join (case None of None \<Rightarrow> include_dir' st | Some d \<Rightarrow> d) lit)"
      using "5.prems" by simp
    have p: "parse n files' st ?p None None = parse n files st ?p None None"
      using "5.IH"(1) [OF nonempty here agree] .
    show ?thesis
    proof (cases "parse n files st ?p None None")
      case None
      then show ?thesis using nonempty p by simp
    next
      case (Some a)
      obtain res1 st1 where a: "a = (res1, st1)" by (cases a)
      have st1: "include_dir' st1 = include_dir' st"
        using include_dir_kept(1) [OF Some [unfolded a]] by simp
      show ?thesis
      proof (cases res1)
        case (Inl e)
        then show ?thesis using nonempty p Some a by simp
      next
        case (Inr child)
        show ?thesis
        proof (cases "module_setattr (last (thrift_stack st)) (m_name child) (EModule child)")
          case (Inl e)
          then show ?thesis using nonempty p Some a Inr by simp
        next
          case inr: (Inr thrift)
          let ?st = "st1\<lparr>thrift_stack := butlast (thrift_stack st1) @ [thrift]\<rparr>"
          have "\<forall>lit. files' (os_path_join (include_dir' ?st) lit) = files (os_path_join (include_dir' ?st) lit)"
            using "5.prems" st1 by simp
          then have "header n files' ?st hs = header n files ?st hs"
            using "5.IH"(2) [OF nonempty Some [unfolded a] refl Inr inr] by blast
          then show ?thesis using nonempty p Some a Inr inr by simp
        qed
      qed
    qed
  qed
qed

text \<open>
  Claim C9, amended. A call of the entry point that omits the include directory behaves as
  the same call with the current value of the global \<^verbatim>\<open>include_dir_\<close>. After every call,
  whatever its outcome, that global is the directory the call was given, or what it was
  before when the call omitted it; so after a sequence of calls it is the directory of the
  last call that gave one, and what it was at the start (\<^verbatim>\<open>'.'\<close> when the module is loaded)
  if none did, and a call that omits the directory then behaves as one that gives that
  directory. An include statement parses the file at the path joined from the value of
  the global and its literal, and binds the module so obtained in the including module;
  and a call reads no file but the one at its path and files at paths joined from its
  include directory (the one it is given, the global otherwise) and a literal.
\<close>

theorem parse_include_dir_global:
  "parse m files st pth mname None = parse m files st pth mname (Some (include_dir' st))
   \<and> (parse n files st pth mname incl = Some (res, st') \<longrightarrow>
        include_dir' st' = (case incl of None \<Rightarrow> include_dir' st | Some d \<Rightarrow> d))
   \<and> include_dir' initial_state = ''.''
   \<and> (calls n files st cs = Some st'' \<longrightarrow>
        include_dir' st'' = latest_include_dir (include_dir' st) cs
        \<and> parse m files st'' pth mname None
            = parse m files st'' pth mname (Some (latest_include_dir (include_dir' st) cs)))
   \<and> (thrift_stack st \<noteq> [] \<longrightarrow>
        header k files st (Include lit # hs)
          = (case parse k files st (os_path_join (include_dir' st) lit) None None of
               None \<Rightarrow> None
             | Some (Inl e, st1) \<Rightarrow> Some (Some e, st1)
             | Some (Inr child, st1) \<Rightarrow>
                 (case module_setattr (last (thrift_stack st)) (m_name child) (EModule child) of
                    Inl e \<Rightarrow> Some (Some e, st1)
                  | Inr thrift \<Rightarrow>
                      header k files (st1\<lparr>thrift_stack := butlast (thrift_stack st1) @ [thrift]\<rparr>) hs)))
   \<and> (files' pth = files pth
        \<and> (\<forall>lit. files' (os_path_join (case incl of None \<Rightarrow> include_dir' st | Some d \<Rightarrow> d) lit)
                  = files (os_path_join (case incl of None \<Rightarrow> include_dir' st | Some d \<Rightarrow> d) lit)) \<longrightarrow>
        parse m files' st pth mname incl = parse m files st pth mname incl)"
proof (intro conjI impI)
  show a: "parse m files st pth mname None = parse m files st pth mname (Some (include_dir' st))"
    for st by (cases m) simp_all
  show "include_dir' st' = (case incl of None \<Rightarrow> include_dir' st | Some d \<Rightarrow> d)"
    if "parse n files st pth mname incl = Some (res, st')"
    using include_dir_kept(1) [OF that] .
  show "include_dir' initial_state = ''.''" by (simp add: initial_state_def)
  show l: "include_dir' st'' = latest_include_dir (include_dir' st) cs"
    if "calls n files st cs = Some st''"
    using calls_include_dir [OF that] .
  show "parse m files st'' pth mname None
          = parse m files st'' pth mname (Some (latest_include_dir (include_dir' st) cs))"
    if "calls n files st cs = Some st''"
    using a [of st''] unfolding l [OF that] .
  show "header k files st (Include lit # hs)
          = (case parse k files st (os_path_join (include_dir' st) lit) None None of
               None \<Rightarrow> None
             | Some (Inl e, st1) \<Rightarrow> Some (Some e, st1)
             | Some (Inr child, st1) \<Rightarrow>
                 (case module_setattr (last (thrift_stack st)) (m_name child) (EModule child) of
                    Inl e \<Rightarrow> Some (Some e, st1)
                  | Inr thrift \<Rightarrow>
                      header k files (st1\<lparr>thrift_stack := butlast (thrift_stack st1) @ [thrift]\<rparr>) hs))"
    if "thrift_stack st \<noteq> []"
    using that by simp
  show "parse m files' st pth mname incl = parse m files st pth mname incl"
    if "files' pth = files pth
        \<and> (\<forall>lit. files' (os_path_join (case incl of None \<Rightarrow> include_dir' st | Some d \<Rightarrow> d) lit)
                  = files (os_path_join (case incl of None \<Rightarrow> include_dir' st | Some d \<Rightarrow> d) lit))"
    using parse_reads(1) [where files' = files' and files = files and pth = pth and incl = incl
        and st = st and n = m and mname = mname] that by blast
qed

theorem parse_include_dir_global_witness:
  "calls 1 dir_files initial_state [(''a.thrift'', None, Some ''/inc'')]
     = Some \<lparr> thrift_stack = [], include_dir' = ''/inc'' \<rparr>
   \<and> include_dir' \<lparr> thrift_stack = [], include_dir' = ''/inc'' \<rparr>
       = latest_include_dir (include_dir' initial_state) [(''a.thrift'', None, Some ''/inc'')]
   \<and> parse 2 dir_files \<lparr> thrift_stack = [], include_dir' = ''/inc'' \<rparr> ''b.thrift'' None None
       = parse 2 dir_files \<lparr> thrift_stack = [], include_dir' = ''/inc'' \<rparr> ''b.thrift'' None (Some ''/inc'')
   \<and> thrift_stack \<lparr> thrift_stack = [Module ''b'' []], include_dir' = ''/inc'' \<rparr> \<noteq> []
   \<and> header 1 dir_files \<lparr> thrift_stack = [Module ''b'' []], include_dir' = ''/inc'' \<rparr> [Include ''c.thrift'']
       = Some (None, \<lparr> thrift_stack = [Module ''b'' [(''c'', EModule (Module ''c'' [(''X'', EConst (PInt 1))]))]],
                       include_dir' = ''/inc'' \<rparr>)
   \<and> (\<forall>lit. (dir_files(''./c.thrift'' := None)) (os_path_join ''/inc'' lit)
              = dir_files (os_path_join ''/inc'' lit))
   \<and> parse 2 (dir_files(''./c.thrift'' := None)) \<lparr> thrift_stack = [], include_dir' = ''/inc'' \<rparr>
         ''b.thrift'' None None
       = Some (Inr (Module ''b'' [(''c'', EModule (Module ''c'' [(''X'', EConst (PInt 1))]))]),
               \<lparr> thrift_stack = [], include_dir' = ''/inc'' \<rparr>)"
proof -
  let ?st = "\<lparr> thrift_stack = [], include_dir' = ''/inc'' \<rparr>"
  let ?sb = "\<lparr> thrift_stack = [Module ''b'' []], include_dir' = ''/inc'' \<rparr>"
  let ?cs = "[(''a.thrift'', None, Some ''/inc'')]"
  have c: "calls 1 dir_files initial_state ?cs = Some ?st"
    by (simp add: dir_files_def initial_state_def endswith_def os_path_basename_def Let_def)
  have e: "include_dir' ?st = latest_include_dir (include_dir' initial_state) ?cs
           \<and> parse 2 dir_files ?st ''b.thrift'' None None
               = parse 2 dir_files ?st ''b.thrift'' None
                   (Some (latest_include_dir (include_dir' initial_state) ?cs))"
    using parse_include_dir_global [where n = 1 and files = dir_files and st = initial_state
        and cs = ?cs and st'' = ?st and m = 2 and pth = "''b.thrift''" and mname = None,
        THEN conjunct2, THEN conjunct2, THEN conjunct2, THEN conjunct1] c
    by blast
  have l: "latest_include_dir (include_dir' initial_state) ?cs = ''/inc''" by simp
  have n: "thrift_stack ?sb \<noteq> []" by simp
  have cfile: "parse 1 dir_files ?sb (os_path_join (include_dir' ?sb) ''c.thrift'') None None
                 = Some (Inr (Module ''c'' [(''X'', EConst (PInt 1))]), ?sb)"
    by (simp add: dir_files_def endswith_def os_path_join_def os_path_basename_def
          module_setattr_def reserved_def p_base_type_def p_const_def cast_i32_def shared_update_def
          Let_def)
  have h: "header 1 dir_files ?sb [Include ''c.thrift'']
             = Some (None, \<lparr> thrift_stack = [Module ''b'' [(''c'', EModule (Module ''c'' [(''X'', EConst (PInt 1))]))]],
                       include_dir' = ''/inc'' \<rparr>)"
    using parse_include_dir_global [where k = 1 and files = dir_files and st = ?sb
        and lit = "''c.thrift''" and hs = "[]",
        THEN conjunct2, THEN conjunct2, THEN conjunct2, THEN conjunct2, THEN conjunct1] n
    unfolding cfile
    by (simp add: module_setattr_def reserved_def)
  have j: "os_path_join ''/inc'' lit \<noteq> ''./c.thrift''" for lit
    by (cases lit) (auto simp: os_path_join_def endswith_def)
  have a: "\<forall>lit. (dir_files(''./c.thrift'' := None)) (os_path_join ''/inc'' lit)
              = dir_files (os_path_join ''/inc'' lit)"
    using j by simp
  have b: "parse 2 dir_files ?st ''b.thrift'' None None
             = Some (Inr (Module ''b'' [(''c'', EModule (Module ''c'' [(''X'', EConst (PInt 1))]))]), ?st)"
    by (simp add: dir_files_def endswith_def os_path_join_def os_path_basename_def
          module_setattr_def reserved_def p_base_type_def p_const_def cast_i32_def shared_update_def
          numeral_2_eq_2 Let_def)
  have d: "parse 2 (dir_files(''./c.thrift'' := None)) ?st ''b.thrift'' None None
             = parse 2 dir_files ?st ''b.thrift'' None None"
    using parse_include_dir_global [where m = 2 and files = dir_files
        and files' = "dir_files(''./c.thrift'' := None)" and st = ?st
        and pth = "''b.thrift''" and mname = None and incl = None,
        THEN conjunct2, THEN conjunct2, THEN conjunct2, THEN conjunct2, THEN conjunct2] a
    by simp
  show ?thesis
    using c e n h a d unfolding l b by blast
qed

end
